theory Spec2Isabelle
  imports Complex_Main "HOL-Library.Log_Nat"
begin

section \<open>ECMAScript values used by the panel\<close>

text \<open>
  A JavaScript number is modelled as a real number or one of the three non-finite
  values. The operations \<open>js_add\<close>, \<open>js_sub\<close>, \<open>js_mul\<close> and \<open>js_div\<close>, the tangent and
  the square root are exact on finite numbers: they stand for the binary64
  operations of the scaling and camera code up to rounding. Reading a number from a
  string and the arithmetic of the bounds estimator are rounded to binary64
  (\<open>round64\<close>, \<open>add64\<close>, \<open>sub64\<close> and \<open>mul64\<close> below), with overflow to an infinity and
  gradual underflow. The sign of zero is not represented. Strings are lists of
  8-bit code units.
\<close>

datatype jsnum = Fin real | PInf | NInf | NaN

fun isFinite :: "jsnum \<Rightarrow> bool" where
  "isFinite (Fin r) = True"
| "isFinite PInf = False"
| "isFinite NInf = False"
| "isFinite NaN = False"

fun isNaN :: "jsnum \<Rightarrow> bool" where
  "isNaN NaN = True"
| "isNaN (Fin r) = False"
| "isNaN PInf = False"
| "isNaN NInf = False"

text \<open>Truthiness of a number: \<open>0\<close> and \<open>NaN\<close> are falsy.\<close>

fun truthy :: "jsnum \<Rightarrow> bool" where
  "truthy (Fin r) = (r \<noteq> 0)"
| "truthy NaN = False"
| "truthy PInf = True"
| "truthy NInf = True"

text \<open>\<open>a || b\<close> on numbers.\<close>

definition js_or :: "jsnum \<Rightarrow> jsnum \<Rightarrow> jsnum" where
  "js_or a b = (if truthy a then a else b)"

text \<open>The infinity (or \<open>NaN\<close>) with the sign of a real number.\<close>

definition inf_of_sign :: "real \<Rightarrow> jsnum" where
  "inf_of_sign s = (if s = 0 then NaN else if 0 < s then PInf else NInf)"

fun sign_of :: "jsnum \<Rightarrow> real" where
  "sign_of (Fin r) = sgn r"
| "sign_of PInf = 1"
| "sign_of NInf = - 1"
| "sign_of NaN = 0"

fun js_neg :: "jsnum \<Rightarrow> jsnum" where
  "js_neg (Fin r) = Fin (- r)"
| "js_neg PInf = NInf"
| "js_neg NInf = PInf"
| "js_neg NaN = NaN"

fun js_add :: "jsnum \<Rightarrow> jsnum \<Rightarrow> jsnum" where
  "js_add NaN y = NaN"
| "js_add x NaN = NaN"
| "js_add (Fin a) (Fin b) = Fin (a + b)"
| "js_add (Fin a) y = y"
| "js_add x (Fin b) = x"
| "js_add PInf PInf = PInf"
| "js_add NInf NInf = NInf"
| "js_add PInf NInf = NaN"
| "js_add NInf PInf = NaN"

definition js_sub :: "jsnum \<Rightarrow> jsnum \<Rightarrow> jsnum" where
  "js_sub x y = js_add x (js_neg y)"

fun js_mul :: "jsnum \<Rightarrow> jsnum \<Rightarrow> jsnum" where
  "js_mul NaN y = NaN"
| "js_mul x NaN = NaN"
| "js_mul (Fin a) (Fin b) = Fin (a * b)"
| "js_mul x y = inf_of_sign (sign_of x * sign_of y)"

fun js_div :: "jsnum \<Rightarrow> jsnum \<Rightarrow> jsnum" where
  "js_div NaN y = NaN"
| "js_div x NaN = NaN"
| "js_div (Fin a) (Fin b) = (if b = 0 then inf_of_sign a else Fin (a / b))"
| "js_div (Fin a) y = Fin 0"
| "js_div x (Fin b) = inf_of_sign (sign_of x * (if b < 0 then - 1 else 1))"
| "js_div x y = NaN"

text \<open>\<open>Math.min\<close> and \<open>Math.max\<close> of two arguments: \<open>NaN\<close> is contagious.\<close>

fun Math_min :: "jsnum \<Rightarrow> jsnum \<Rightarrow> jsnum" where
  "Math_min NaN y = NaN"
| "Math_min x NaN = NaN"
| "Math_min NInf y = NInf"
| "Math_min x NInf = NInf"
| "Math_min PInf y = y"
| "Math_min x PInf = x"
| "Math_min (Fin a) (Fin b) = Fin (min a b)"

fun Math_max :: "jsnum \<Rightarrow> jsnum \<Rightarrow> jsnum" where
  "Math_max NaN y = NaN"
| "Math_max x NaN = NaN"
| "Math_max PInf y = PInf"
| "Math_max x PInf = PInf"
| "Math_max NInf y = y"
| "Math_max x NInf = x"
| "Math_max (Fin a) (Fin b) = Fin (max a b)"

fun Math_tan :: "jsnum \<Rightarrow> jsnum" where
  "Math_tan (Fin r) = Fin (tan r)"
| "Math_tan x = NaN"

fun Math_sqrt :: "jsnum \<Rightarrow> jsnum" where
  "Math_sqrt (Fin r) = (if r < 0 then NaN else Fin (sqrt r))"
| "Math_sqrt PInf = PInf"
| "Math_sqrt x = NaN"

subsection \<open>Rounding to binary64\<close>

text \<open>The integer nearest to a real number, the even one of the two when it is half way.\<close>

definition roundTiesToEven :: "real \<Rightarrow> int" where
  "roundTiesToEven q =
     (let f = \<lfloor>q\<rfloor>; d = q - of_int f
      in if d < 1 / 2 then f else if 1 / 2 < d then f + 1 else if even f then f else f + 1)"

text \<open>
  The exponent of the unit in the last place of the binary64 numbers around \<open>x\<close>:
  53 significant bits for a normal number, and the fixed exponent \<open>-1074\<close> for the
  subnormal ones.
\<close>

definition ulpExponent :: "real \<Rightarrow> int" where
  "ulpExponent x = max (\<lfloor>log 2 \<bar>x\<bar>\<rfloor> - 52) (- 1074)"

text \<open>The multiple of that unit nearest to \<open>x\<close>.\<close>

definition nearest64 :: "real \<Rightarrow> real" where
  "nearest64 x = of_int (roundTiesToEven (x / 2 powi ulpExponent x)) * 2 powi ulpExponent x"

text \<open>
  The Number value of a real number: the nearest binary64 number, or the infinity of
  its sign when that reaches \<open>2 ^ 1024\<close>.
\<close>

definition round64 :: "real \<Rightarrow> jsnum" where
  "round64 x =
     (if x = 0 then Fin 0
      else if 2 ^ 1024 \<le> \<bar>nearest64 x\<bar> then inf_of_sign x
      else Fin (nearest64 x))"

fun rounded :: "jsnum \<Rightarrow> jsnum" where
  "rounded (Fin r) = round64 r"
| "rounded x = x"

text \<open>The binary64 operations \<open>+\<close>, \<open>-\<close> and \<open>*\<close>: the exact result, rounded.\<close>

definition add64 :: "jsnum \<Rightarrow> jsnum \<Rightarrow> jsnum" where
  "add64 x y = rounded (js_add x y)"

definition sub64 :: "jsnum \<Rightarrow> jsnum \<Rightarrow> jsnum" where
  "sub64 x y = rounded (js_sub x y)"

definition mul64 :: "jsnum \<Rightarrow> jsnum \<Rightarrow> jsnum" where
  "mul64 x y = rounded (js_mul x y)"

text \<open>The comparison \<open>x <= y\<close>: false when either side is \<open>NaN\<close>.\<close>

fun js_le :: "jsnum \<Rightarrow> jsnum \<Rightarrow> bool" where
  "js_le NaN y = False"
| "js_le x NaN = False"
| "js_le NInf y = True"
| "js_le x PInf = True"
| "js_le (Fin a) (Fin b) = (a \<le> b)"
| "js_le x y = False"

subsection \<open>Strings\<close>

text \<open>White space and line terminators among the 8-bit code units.\<close>

definition is_ws :: "char \<Rightarrow> bool" where
  "is_ws c = (c = CHR 0x09 \<or> c = CHR 0x0A \<or> c = CHR 0x0B \<or> c = CHR 0x0C
     \<or> c = CHR 0x0D \<or> c = CHR 0x20 \<or> c = CHR 0xA0)"

definition is_digit :: "char \<Rightarrow> bool" where
  "is_digit c = (48 \<le> (of_char c :: nat) \<and> (of_char c :: nat) \<le> 57)"

text \<open>\<open>String.prototype.trim\<close>.\<close>

definition trim :: "string \<Rightarrow> string" where
  "trim s = rev (dropWhile is_ws (rev (dropWhile is_ws s)))"

text \<open>\<open>s.includes(',')\<close> and \<open>s.split(',')\<close>.\<close>

definition includes_comma :: "string \<Rightarrow> bool" where
  "includes_comma s = (CHR '','' \<in> set s)"

fun split_comma :: "string \<Rightarrow> string list" where
  "split_comma [] = [[]]"
| "split_comma (c # cs) =
     (if c = CHR '','' then [] # split_comma cs
      else (case split_comma cs of [] \<Rightarrow> [[c]] | x # xs \<Rightarrow> (c # x) # xs))"

text \<open>
  \<open>parseFloat\<close>: leading white space is skipped, then the longest prefix that is a
  decimal literal (optional sign; \<open>Infinity\<close>, or digits with an optional fraction
  and an optional exponent) is read; \<open>NaN\<close> when there is none. The result is the
  mathematical value of the literal rounded to binary64, so a literal beyond the
  range of binary64 reads as an infinity.
\<close>

definition digits_val :: "string \<Rightarrow> int" where
  "digits_val ds = foldl (\<lambda>a c. 10 * a + ((of_char c :: int) - 48)) 0 ds"

definition scale10 :: "real \<Rightarrow> int \<Rightarrow> real" where
  "scale10 m k = (if 0 \<le> k then m * 10 ^ nat k else m / 10 ^ nat (- k))"

definition exponent_part :: "string \<Rightarrow> int" where
  "exponent_part r =
     (case r of
        [] \<Rightarrow> 0
      | c # r1 \<Rightarrow>
          if c = CHR ''e'' \<or> c = CHR ''E'' then
            (case r1 of
               [] \<Rightarrow> 0
             | s # r2 \<Rightarrow>
                 if s = CHR ''-'' then
                   (if takeWhile is_digit r2 = [] then 0
                    else - digits_val (takeWhile is_digit r2))
                 else if s = CHR ''+'' then digits_val (takeWhile is_digit r2)
                 else digits_val (takeWhile is_digit r1))
          else 0)"

text \<open>The mathematical value of the decimal literal at the head of a string, if there is one.\<close>

definition decimal_value :: "string \<Rightarrow> real option" where
  "decimal_value u =
     (let ip = takeWhile is_digit u;
          r1 = dropWhile is_digit u;
          fp = (case r1 of [] \<Rightarrow> [] | c # r \<Rightarrow> if c = CHR ''.'' then takeWhile is_digit r else []);
          r2 = (case r1 of [] \<Rightarrow> [] | c # r \<Rightarrow> if c = CHR ''.'' then dropWhile is_digit r else r1)
      in if ip = [] \<and> fp = [] then None
         else Some (scale10 (of_int (digits_val (ip @ fp))) (exponent_part r2 - int (length fp))))"

definition unsigned_literal :: "string \<Rightarrow> jsnum" where
  "unsigned_literal u =
     (if take 8 u = ''Infinity'' then PInf
      else (case decimal_value u of None \<Rightarrow> NaN | Some v \<Rightarrow> round64 v))"

definition parseFloat :: "string \<Rightarrow> jsnum" where
  "parseFloat s =
     (case dropWhile is_ws s of
        [] \<Rightarrow> NaN
      | c # r \<Rightarrow>
          if c = CHR ''-'' then js_neg (unsigned_literal r)
          else if c = CHR ''+'' then unsigned_literal r
          else unsigned_literal (c # r))"

section \<open>Telemetry and data fields\<close>

text \<open>
  A value stored in a telemetry column: a number, a string, or anything else
  (\<open>null\<close>, \<open>undefined\<close>, a boolean, an object).
\<close>

datatype jsval = JNumber jsnum | JString string | JOther

record Field =
  field_name :: string
  field_values :: "jsval list"

record DataFrame =
  series_name :: "string option"
  series_refId :: "string option"
  series_fields :: "Field list"

text \<open>\<open>PanelData\<close>: \<open>None\<close> stands for an absent \<open>data\<close> (or an absent \<open>data.series\<close>).\<close>

type_synonym PanelData = "DataFrame list option"

datatype DataSourceType = const | field

record DataField =
  sourceType :: DataSourceType
  df_value :: string

subsection \<open>Reference syntax\<close>

text \<open>The match of \<open>/^\[([^\]]+)\]\{([^}]+)\}$/\<close>: the two groups.\<close>

definition bracketMatch :: "string \<Rightarrow> (string \<times> string) option" where
  "bracketMatch v =
     (case v of
        [] \<Rightarrow> None
      | c # r \<Rightarrow>
          if c \<noteq> CHR ''['' then None
          else
            let a = takeWhile (\<lambda>x. x \<noteq> CHR '']'') r;
                r1 = dropWhile (\<lambda>x. x \<noteq> CHR '']'') r;
                b = takeWhile (\<lambda>x. x \<noteq> CHR ''}'') (drop 2 r1);
                r2 = dropWhile (\<lambda>x. x \<noteq> CHR ''}'') (drop 2 r1)
            in if a \<noteq> [] \<and> take 2 r1 = '']{'' \<and> b \<noteq> [] \<and> r2 = ''}''
               then Some (a, b) else None)"

text \<open>
  The match of \<open>/^([^.]+)\.(.+)$/\<close>: the first group cannot hold a dot, so it is
  the text before the first dot; \<open>.\<close> matches no line terminator.
\<close>

definition is_line_terminator :: "char \<Rightarrow> bool" where
  "is_line_terminator c = (c = CHR 0x0A \<or> c = CHR 0x0D)"

definition dotMatch :: "string \<Rightarrow> (string \<times> string) option" where
  "dotMatch v =
     (let a = takeWhile (\<lambda>x. x \<noteq> CHR ''.'') v;
          r = dropWhile (\<lambda>x. x \<noteq> CHR ''.'') v
      in if a \<noteq> [] \<and> r \<noteq> [] \<and> tl r \<noteq> [] \<and> \<not> list_ex is_line_terminator (tl r)
         then Some (a, tl r) else None)"

text \<open>
  The target series name and field name as \<open>getFieldFromDataSource\<close> and
  \<open>getFieldFromDataSourceAsString\<close> compute them: bracket syntax first, then
  dotted, then the bare field name.
\<close>

definition parseFieldReference :: "string \<Rightarrow> string option \<times> string" where
  "parseFieldReference v =
     (case bracketMatch v of
        Some (s, f) \<Rightarrow> (Some s, f)
      | None \<Rightarrow>
          (case dotMatch v of
             Some (s, f) \<Rightarrow> (Some s, f)
           | None \<Rightarrow> (None, v)))"

text \<open>
  The same as \<open>getTextFieldFromDataSource\<close> computes them: the dotted form is
  split with \<open>indexOf('.')\<close> and \<open>substring\<close>.
\<close>

definition parseTextFieldReference :: "string \<Rightarrow> string option \<times> string" where
  "parseTextFieldReference v =
     (case bracketMatch v of
        Some (s, f) \<Rightarrow> (Some s, f)
      | None \<Rightarrow>
          (let a = takeWhile (\<lambda>x. x \<noteq> CHR ''.'') v;
               r = dropWhile (\<lambda>x. x \<noteq> CHR ''.'') v
           in if r \<noteq> [] \<and> a \<noteq> [] then (Some a, tl r) else (None, v)))"

subsection \<open>DataFieldProcessor: numeric resolution\<close>

fun processValue :: "jsval \<Rightarrow> jsnum" where
  "processValue (JNumber n) = n"
| "processValue (JString s) = (if isNaN (parseFloat s) then Fin 0 else parseFloat s)"
| "processValue JOther = Fin 0"

definition processFieldValues :: "Field \<Rightarrow> jsnum list" where
  "processFieldValues fieldData = map processValue (field_values fieldData)"

text \<open>\<open>series.fields.find(f => f.name === targetFieldName)\<close>.\<close>

definition findField :: "DataFrame \<Rightarrow> string \<Rightarrow> Field option" where
  "findField series targetFieldName =
     find (\<lambda>f. field_name f = targetFieldName) (series_fields series)"

definition seriesMatches :: "DataFrame \<Rightarrow> string \<Rightarrow> bool" where
  "seriesMatches series targetSeriesName =
     (series_name series = Some targetSeriesName \<or> series_refId series = Some targetSeriesName)"

fun findFieldBySeriesAndName :: "DataFrame list \<Rightarrow> string \<Rightarrow> string \<Rightarrow> jsnum list option" where
  "findFieldBySeriesAndName [] targetSeriesName targetFieldName = None"
| "findFieldBySeriesAndName (series # rest) targetSeriesName targetFieldName =
     (if seriesMatches series targetSeriesName then
        (case findField series targetFieldName of
           Some fieldData \<Rightarrow>
             if field_values fieldData \<noteq> [] then Some (processFieldValues fieldData)
             else findFieldBySeriesAndName rest targetSeriesName targetFieldName
         | None \<Rightarrow> findFieldBySeriesAndName rest targetSeriesName targetFieldName)
      else findFieldBySeriesAndName rest targetSeriesName targetFieldName)"

fun findFieldByName :: "DataFrame list \<Rightarrow> string \<Rightarrow> jsnum \<Rightarrow> jsnum list" where
  "findFieldByName [] targetFieldName defaultValue = [defaultValue]"
| "findFieldByName (series # rest) targetFieldName defaultValue =
     (case findField series targetFieldName of
        Some fieldData \<Rightarrow>
          if field_values fieldData \<noteq> [] then processFieldValues fieldData
          else findFieldByName rest targetFieldName defaultValue
      | None \<Rightarrow> findFieldByName rest targetFieldName defaultValue)"

definition getFieldFromDataSource :: "PanelData \<Rightarrow> DataField \<Rightarrow> jsnum \<Rightarrow> jsnum list" where
  "getFieldFromDataSource data fld defaultValue =
     (case data of
        None \<Rightarrow> [defaultValue]
      | Some series \<Rightarrow>
          (case parseFieldReference (df_value fld) of
             (Some targetSeriesName, targetFieldName) \<Rightarrow>
               (case findFieldBySeriesAndName series targetSeriesName targetFieldName of
                  Some result \<Rightarrow> result
                | None \<Rightarrow> findFieldByName series targetFieldName defaultValue)
           | (None, targetFieldName) \<Rightarrow> findFieldByName series targetFieldName defaultValue))"

text \<open>
  \<open>getDataFieldValue\<close>. An absent field is \<open>None\<close>. In the comma branch a token that
  is not a finite number becomes \<open>0\<close>; in the single-value branch it becomes the
  default.
\<close>

definition constToken :: "string \<Rightarrow> jsnum" where
  "constToken v = (if isFinite (parseFloat (trim v)) then parseFloat (trim v) else Fin 0)"

definition getDataFieldValue :: "PanelData \<Rightarrow> DataField option \<Rightarrow> jsnum \<Rightarrow> jsnum list" where
  "getDataFieldValue data fld defaultValue =
     (case fld of
        None \<Rightarrow> [defaultValue]
      | Some f \<Rightarrow>
          if sourceType f = const then
            (let valueStr = (if df_value f = [] then ''0'' else df_value f)
             in if includes_comma valueStr then map constToken (split_comma valueStr)
                else [if isFinite (parseFloat valueStr) then parseFloat valueStr else defaultValue])
          else if data \<noteq> None then getFieldFromDataSource data f defaultValue
          else [defaultValue])"

text \<open>
  \<open>getLastDataFieldValue\<close>, with the console output it produces. A field value is a
  string here, so no call of the \<open>try\<close> block throws and the \<open>catch\<close> branch is not
  reached; reading past the end of an empty array gives \<open>undefined\<close>, which is not
  finite.
\<close>

datatype console = Warn | Error

definition getLastDataFieldValue :: "PanelData \<Rightarrow> DataField option \<Rightarrow> jsnum \<Rightarrow> jsnum \<times> console list" where
  "getLastDataFieldValue data fld defaultValue =
     (case getDataFieldValue data fld defaultValue of
        [] \<Rightarrow> (defaultValue, [Warn])
      | v # vs \<Rightarrow>
          if \<not> isFinite (last (v # vs)) then (defaultValue, [Warn])
          else (last (v # vs), []))"

subsection \<open>DataFieldProcessor: text resolution\<close>

text \<open>
  \<open>String(v)\<close> on a stored value is the language's own conversion; the functions
  below take it as the parameter \<open>str\<close>.
\<close>

definition processFieldValuesAsString :: "(jsval \<Rightarrow> string) \<Rightarrow> Field \<Rightarrow> string list" where
  "processFieldValuesAsString str fieldData = map str (field_values fieldData)"

fun findFieldBySeriesAndNameAsString ::
  "(jsval \<Rightarrow> string) \<Rightarrow> DataFrame list \<Rightarrow> string \<Rightarrow> string \<Rightarrow> string list option" where
  "findFieldBySeriesAndNameAsString str [] targetSeriesName targetFieldName = None"
| "findFieldBySeriesAndNameAsString str (series # rest) targetSeriesName targetFieldName =
     (if seriesMatches series targetSeriesName then
        (case findField series targetFieldName of
           Some fieldData \<Rightarrow>
             if field_values fieldData \<noteq> [] then Some (processFieldValuesAsString str fieldData)
             else findFieldBySeriesAndNameAsString str rest targetSeriesName targetFieldName
         | None \<Rightarrow> findFieldBySeriesAndNameAsString str rest targetSeriesName targetFieldName)
      else findFieldBySeriesAndNameAsString str rest targetSeriesName targetFieldName)"

fun findFieldByNameAsString ::
  "(jsval \<Rightarrow> string) \<Rightarrow> DataFrame list \<Rightarrow> string \<Rightarrow> string \<Rightarrow> string list" where
  "findFieldByNameAsString str [] targetFieldName defaultValue = [defaultValue]"
| "findFieldByNameAsString str (series # rest) targetFieldName defaultValue =
     (case findField series targetFieldName of
        Some fieldData \<Rightarrow>
          if field_values fieldData \<noteq> [] then processFieldValuesAsString str fieldData
          else findFieldByNameAsString str rest targetFieldName defaultValue
      | None \<Rightarrow> findFieldByNameAsString str rest targetFieldName defaultValue)"

definition getFieldFromDataSourceAsString ::
  "(jsval \<Rightarrow> string) \<Rightarrow> PanelData \<Rightarrow> DataField \<Rightarrow> string \<Rightarrow> string list" where
  "getFieldFromDataSourceAsString str data fld defaultValue =
     (case data of
        None \<Rightarrow> [defaultValue]
      | Some series \<Rightarrow>
          (case parseFieldReference (df_value fld) of
             (Some targetSeriesName, targetFieldName) \<Rightarrow>
               (case findFieldBySeriesAndNameAsString str series targetSeriesName targetFieldName of
                  Some result \<Rightarrow> result
                | None \<Rightarrow> findFieldByNameAsString str series targetFieldName defaultValue)
           | (None, targetFieldName) \<Rightarrow>
               findFieldByNameAsString str series targetFieldName defaultValue))"

definition getFieldValueAsString ::
  "(jsval \<Rightarrow> string) \<Rightarrow> PanelData \<Rightarrow> DataField option \<Rightarrow> string \<Rightarrow> string list" where
  "getFieldValueAsString str data fld defaultValue =
     (case fld of
        None \<Rightarrow> [defaultValue]
      | Some f \<Rightarrow>
          if sourceType f = const then
            (if includes_comma (df_value f) then map trim (split_comma (df_value f))
             else [df_value f])
          else if data \<noteq> None then getFieldFromDataSourceAsString str data f defaultValue
          else [defaultValue])"

text \<open>
  \<open>getTextFieldFromDataSource\<close>: a series is skipped only when a series name was
  given and \<open>series.name\<close> differs from it; the first field of the name is taken
  whenever it has a \<open>values\<close> object, whatever its length.
\<close>

fun scanTextSeries ::
  "(jsval \<Rightarrow> string) \<Rightarrow> DataFrame list \<Rightarrow> string option \<Rightarrow> string \<Rightarrow> string \<Rightarrow> string list" where
  "scanTextSeries str [] targetSeriesName targetFieldName defaultValue = [defaultValue]"
| "scanTextSeries str (series # rest) targetSeriesName targetFieldName defaultValue =
     (if (case targetSeriesName of None \<Rightarrow> False
            | Some t \<Rightarrow> t \<noteq> [] \<and> series_name series \<noteq> Some t)
      then scanTextSeries str rest targetSeriesName targetFieldName defaultValue
      else
        (case findField series targetFieldName of
           Some targetField \<Rightarrow> map str (field_values targetField)
         | None \<Rightarrow> scanTextSeries str rest targetSeriesName targetFieldName defaultValue))"

definition getTextFieldFromDataSource ::
  "(jsval \<Rightarrow> string) \<Rightarrow> PanelData \<Rightarrow> DataField \<Rightarrow> string \<Rightarrow> string list" where
  "getTextFieldFromDataSource str data fld defaultValue =
     (case data of
        None \<Rightarrow> [defaultValue]
      | Some series \<Rightarrow>
          (case parseTextFieldReference (df_value fld) of
             (targetSeriesName, targetFieldName) \<Rightarrow>
               scanTextSeries str series targetSeriesName targetFieldName defaultValue))"

definition getTextDataFieldValue ::
  "(jsval \<Rightarrow> string) \<Rightarrow> PanelData \<Rightarrow> DataField option \<Rightarrow> string \<Rightarrow> string list" where
  "getTextDataFieldValue str data fld defaultValue =
     (case fld of
        None \<Rightarrow> [defaultValue]
      | Some f \<Rightarrow>
          if sourceType f = const then
            (if includes_comma (df_value f) then map trim (split_comma (df_value f))
             else [df_value f])
          else if data \<noteq> None then getTextFieldFromDataSource str data f defaultValue
          else [defaultValue])"

subsection \<open>Notions used to state the resolver's properties\<close>

text \<open>
  The values of the first field of a series that has the given name (empty when the
  series has no such field), and whether that field has a nonzero value count.
\<close>

definition fieldData :: "DataFrame \<Rightarrow> string \<Rightarrow> jsval list" where
  "fieldData s fn = (case findField s fn of Some fd \<Rightarrow> field_values fd | None \<Rightarrow> [])"

definition hasData :: "DataFrame \<Rightarrow> string \<Rightarrow> bool" where
  "hasData s fn = (fieldData s fn \<noteq> [])"

text \<open>A telemetry snapshot with one series \<open>A\<close> holding the column \<open>x = [1]\<close>.\<close>

definition seriesA :: DataFrame where
  "seriesA = \<lparr>series_name = Some ''A'', series_refId = Some ''A'',
     series_fields = [\<lparr>field_name = ''x'', field_values = [JNumber (Fin 1)]\<rparr>]\<rparr>"

text \<open>
  A rendering of \<open>String(v)\<close> that is exact on strings, on the number \<open>1\<close> and on
  \<open>null\<close>; it instantiates the parameter \<open>str\<close> in evaluated examples.
\<close>

definition showValue :: "jsval \<Rightarrow> string" where
  "showValue v =
     (case v of
        JString s \<Rightarrow> s
      | JNumber n \<Rightarrow> (if n = Fin 1 then ''1'' else ''?'')
      | JOther \<Rightarrow> ''null'')"

text \<open>A series \<open>A\<close> whose column \<open>x\<close> is empty, and one whose column holds non-finite numbers.\<close>

definition seriesEmpty :: DataFrame where
  "seriesEmpty = \<lparr>series_name = Some ''A'', series_refId = Some ''A'',
     series_fields = [\<lparr>field_name = ''x'', field_values = []\<rparr>]\<rparr>"

definition seriesNonFinite :: DataFrame where
  "seriesNonFinite = \<lparr>series_name = Some ''A'', series_refId = Some ''A'',
     series_fields = [\<lparr>field_name = ''x'', field_values = [JNumber NaN, JNumber PInf]\<rparr>]\<rparr>"

section \<open>View-angle scaling\<close>

record Vector3 =
  vx :: jsnum
  vy :: jsnum
  vz :: jsnum

text \<open>\<open>Vector3.distanceTo\<close> of the rendering library: the root of the squared distance.\<close>

definition distanceTo :: "Vector3 \<Rightarrow> Vector3 \<Rightarrow> jsnum" where
  "distanceTo a b =
     (let dx = js_sub (vx a) (vx b);
          dy = js_sub (vy a) (vy b);
          dz = js_sub (vz a) (vz b)
      in Math_sqrt (js_add (js_add (js_mul dx dx) (js_mul dy dy)) (js_mul dz dz)))"

record ViewAngleScalingConfig =
  enabled :: bool
  targetAngularSize :: jsnum
  minSize :: jsnum
  maxSize :: jsnum

datatype ShapeType = sphere | model3d | annotation | polyline

text \<open>
  A scene-graph node, as far as the panel's own code reads and writes it: its
  position and the entries of \<open>userData\<close> (\<open>None\<close> for an entry that is not set).
  Geometry, materials, children, rotation and the scale vector belong to the
  rendering library and are not represented. A camera is such a node too.
\<close>

record Object3D =
  position :: Vector3
  shapeId :: string
  shapeType :: ShapeType
  originalSize :: "jsnum option"
  originalScale :: "jsnum option"
  aspectRatio :: "jsnum option"
  viewAngleConfig :: "ViewAngleScalingConfig option"
  originalUrl :: "string option"

text \<open>
  \<open>getObjectSize\<close>. The size of the bounding box of the object, which the rendering
  library computes, is the parameter \<open>box\<close>. The result is the size and the object
  with the size cached.
\<close>

definition getObjectSize :: "Vector3 \<Rightarrow> Object3D \<Rightarrow> jsnum \<times> Object3D" where
  "getObjectSize box object =
     (case originalSize object of
        Some s \<Rightarrow>
          if truthy s then (s, object)
          else (let maxDimension = Math_max (Math_max (vx box) (vy box)) (vz box)
                in (maxDimension, object\<lparr>originalSize := Some maxDimension\<rparr>))
      | None \<Rightarrow>
          (let maxDimension = Math_max (Math_max (vx box) (vy box)) (vz box)
           in (maxDimension, object\<lparr>originalSize := Some maxDimension\<rparr>)))"

definition calculateViewBasedScale ::
  "Vector3 \<Rightarrow> Object3D \<Rightarrow> Object3D \<Rightarrow> ViewAngleScalingConfig \<Rightarrow> jsnum \<times> Object3D" where
  "calculateViewBasedScale box object camera config =
     (if \<not> enabled config then (Fin 1, object)
      else
        let distance = distanceTo (position camera) (position object)
        in if distance = Fin 0 then (Fin 1, object)
           else
             let requiredSize =
                   js_mul (js_mul (Fin 2) distance)
                     (Math_tan (js_div (targetAngularSize config) (Fin 2)));
                 sized = getObjectSize box object;
                 scale = js_div requiredSize (fst sized)
             in (Math_max (minSize config) (Math_min (maxSize config) scale), snd sized))"

definition applyShapeAdjustment :: "Object3D \<Rightarrow> jsnum \<Rightarrow> jsnum" where
  "applyShapeAdjustment object baseScale =
     (let ratio = (case aspectRatio object of
                     None \<Rightarrow> Fin 1
                   | Some a \<Rightarrow> js_or a (Fin 1));
          shapeAdjustment = Math_max (Fin (1 / 2)) (Math_min (Fin 2) ratio)
      in js_mul baseScale shapeAdjustment)"

definition getDefaultConfig :: ViewAngleScalingConfig where
  "getDefaultConfig =
     \<lparr>enabled = False, targetAngularSize = Fin (2 / 100), minSize = Fin (1 / 10), maxSize = Fin 10\<rparr>"

text \<open>
  One object of \<open>updateViewAngleScaling\<close> that is not an annotation: the uniform scale
  the pass assigns, or \<open>None\<close> when the pass leaves the scale alone, and the object
  after the pass.
\<close>

definition viewAngleStep :: "Vector3 \<Rightarrow> Object3D \<Rightarrow> Object3D \<Rightarrow> jsnum option \<times> Object3D" where
  "viewAngleStep box camera object =
     (case viewAngleConfig object of
        None \<Rightarrow> (None, object)
      | Some config \<Rightarrow>
          if \<not> enabled config then (None, object)
          else
            let r = calculateViewBasedScale box object camera config;
                adjustedScale = applyShapeAdjustment (snd r) (fst r);
                base = (case originalScale (snd r) of
                          None \<Rightarrow> Fin 1
                        | Some s \<Rightarrow> js_or s (Fin 1))
            in (Some (js_mul base adjustedScale), snd r))"

subsection \<open>The scale function as the specification words it\<close>

definition clamp :: "jsnum \<Rightarrow> jsnum \<Rightarrow> jsnum \<Rightarrow> jsnum" where
  "clamp v lo hi = Math_max lo (Math_min hi v)"

text \<open>
  The size the scale is computed against: the cached size when there is one that is
  not zero, the largest dimension of the bounding box otherwise.
\<close>

definition sizeOf :: "Vector3 \<Rightarrow> Object3D \<Rightarrow> jsnum" where
  "sizeOf box object =
     (case originalSize object of
        None \<Rightarrow> Math_max (Math_max (vx box) (vy box)) (vz box)
      | Some s \<Rightarrow> if truthy s then s else Math_max (Math_max (vx box) (vy box)) (vz box))"

definition rawScale :: "Vector3 \<Rightarrow> Object3D \<Rightarrow> Object3D \<Rightarrow> ViewAngleScalingConfig \<Rightarrow> jsnum" where
  "rawScale box object camera config =
     js_div
       (js_mul (js_mul (Fin 2) (distanceTo (position camera) (position object)))
          (Math_tan (js_div (targetAngularSize config) (Fin 2))))
       (sizeOf box object)"

text \<open>
  The scale of claim C1: \<open>1\<close> when scaling is disabled or the distance is zero, and
  otherwise the clamped raw scale times \<open>clamp(aspectRatio ?? 1.0, 0.5, 2.0)\<close>.
\<close>

definition claimedScale :: "Vector3 \<Rightarrow> Object3D \<Rightarrow> Object3D \<Rightarrow> ViewAngleScalingConfig \<Rightarrow> jsnum" where
  "claimedScale box object camera config =
     (if \<not> enabled config \<or> distanceTo (position camera) (position object) = Fin 0 then Fin 1
      else js_mul
             (clamp (rawScale box object camera config) (minSize config) (maxSize config))
             (clamp (case aspectRatio object of None \<Rightarrow> Fin 1 | Some a \<Rightarrow> a)
                (Fin (1 / 2)) (Fin 2)))"

text \<open>Objects and cameras used in evaluated examples.\<close>

definition origin3 :: Vector3 where
  "origin3 = \<lparr>vx = Fin 0, vy = Fin 0, vz = Fin 0\<rparr>"

definition autoConfig :: ViewAngleScalingConfig where
  "autoConfig = getDefaultConfig\<lparr>enabled := True\<rparr>"

definition wideObject :: Object3D where
  "wideObject =
     \<lparr>position = origin3, shapeId = ''m'', shapeType = model3d,
      originalSize = Some (Fin 2), originalScale = Some (Fin 1), aspectRatio = Some (Fin 2),
      viewAngleConfig = Some autoConfig, originalUrl = None\<rparr>"

definition cameraAt :: "real \<Rightarrow> Object3D" where
  "cameraAt d =
     \<lparr>position = \<lparr>vx = Fin d, vy = Fin 0, vz = Fin 0\<rparr>, shapeId = [],
      shapeType = model3d, originalSize = None, originalScale = None, aspectRatio = None,
      viewAngleConfig = None, originalUrl = None\<rparr>"

text \<open>A configuration whose bounds are the wrong way round.\<close>

definition invertedConfig :: ViewAngleScalingConfig where
  "invertedConfig =
     \<lparr>enabled = True, targetAngularSize = Fin (2 / 100), minSize = Fin 5, maxSize = Fin 1\<rparr>"

section \<open>Shapes\<close>

text \<open>
  The declarative shapes, with the attributes the modelled functions read. \<open>on\<close> is
  \<open>True\<close>. Colours, text and stroke sizes and the rotation fields only reach the
  rendering library and are left out.
\<close>

record BaseShape =
  shape_id :: string
  shape_name :: string
  visible :: bool

record Position3 =
  posX :: DataField
  posY :: DataField
  posZ :: DataField

record SphereProps =
  autoRadius :: bool
  radius :: "jsnum option"
  sphereAutoScaleFactor :: "jsnum option"

record AnnotationProps =
  annotationText :: DataField

record PolylineProps =
  pointsX :: DataField
  pointsY :: DataField
  pointsZ :: DataField
  closePath :: bool

record ModelProps =
  url :: string
  autoScale :: bool
  modelAutoScaleFactor :: "jsnum option"
  unitMeters :: bool

datatype Shape =
    SphereShape BaseShape Position3 SphereProps
  | AnnotationShape BaseShape Position3 AnnotationProps
  | PolylineShape BaseShape PolylineProps
  | ModelShape BaseShape Position3 ModelProps

fun base :: "Shape \<Rightarrow> BaseShape" where
  "base (SphereShape b p s) = b"
| "base (AnnotationShape b p a) = b"
| "base (PolylineShape b l) = b"
| "base (ModelShape b p m) = b"

fun typeOf :: "Shape \<Rightarrow> ShapeType" where
  "typeOf (SphereShape b p s) = sphere"
| "typeOf (AnnotationShape b p a) = annotation"
| "typeOf (PolylineShape b l) = polyline"
| "typeOf (ModelShape b p m) = model3d"

text \<open>The position fields of a sphere, an annotation or a model; a polyline has none.\<close>

fun positionFields :: "Shape \<Rightarrow> Position3 option" where
  "positionFields (SphereShape b p s) = Some p"
| "positionFields (AnnotationShape b p a) = Some p"
| "positionFields (PolylineShape b l) = None"
| "positionFields (ModelShape b p m) = Some p"

section \<open>Camera axis presets\<close>





subsection \<open>The target of a preset as claim C10 words it\<close>




text \<open>Options whose target is a sphere placed by constants at \<open>(10, 20, 30)\<close>.\<close>

definition constField :: "string \<Rightarrow> DataField" where
  "constField v = \<lparr>sourceType = const, df_value = v\<rparr>"

definition sphereS :: Shape where
  "sphereS =
     SphereShape \<lparr>shape_id = ''s'', shape_name = ''S'', visible = True\<rparr>
       \<lparr>posX = constField ''10'', posY = constField ''20'', posZ = constField ''30''\<rparr>
       \<lparr>autoRadius = True, radius = None, sphereAutoScaleFactor = None\<rparr>"


section \<open>Bounds estimation\<close>

text \<open>The running minimum and maximum of one axis.\<close>

type_synonym extent = "jsnum \<times> jsnum"

definition growExtent :: "extent \<Rightarrow> jsnum \<Rightarrow> extent" where
  "growExtent e v = (Math_min (fst e) v, Math_max (snd e) v)"

text \<open>
  The body of the loop over the shapes. No call in its \<open>try\<close> block throws, so the
  \<open>catch\<close> branch is not reached.
\<close>

fun boundsStep :: "PanelData \<Rightarrow> extent \<times> extent \<times> extent \<Rightarrow> Shape \<Rightarrow> extent \<times> extent \<times> extent" where
  "boundsStep data (ex, ey, ez) shape =
     (if \<not> visible (base shape) then (ex, ey, ez)
      else
        (case shape of
           PolylineShape b l \<Rightarrow>
             (foldl growExtent ex (getDataFieldValue data (Some (pointsX l)) (Fin 0)),
              foldl growExtent ey (getDataFieldValue data (Some (pointsY l)) (Fin 0)),
              foldl growExtent ez (getDataFieldValue data (Some (pointsZ l)) (Fin 0)))
         | SphereShape b p s \<Rightarrow>
             (growExtent ex (fst (getLastDataFieldValue data (Some (posX p)) (Fin 0))),
              growExtent ey (fst (getLastDataFieldValue data (Some (posY p)) (Fin 0))),
              growExtent ez (fst (getLastDataFieldValue data (Some (posZ p)) (Fin 0))))
         | AnnotationShape b p a \<Rightarrow>
             (growExtent ex (fst (getLastDataFieldValue data (Some (posX p)) (Fin 0))),
              growExtent ey (fst (getLastDataFieldValue data (Some (posY p)) (Fin 0))),
              growExtent ez (fst (getLastDataFieldValue data (Some (posZ p)) (Fin 0))))
         | ModelShape b p m \<Rightarrow>
             (growExtent ex (fst (getLastDataFieldValue data (Some (posX p)) (Fin 0))),
              growExtent ey (fst (getLastDataFieldValue data (Some (posY p)) (Fin 0))),
              growExtent ez (fst (getLastDataFieldValue data (Some (posZ p)) (Fin 0))))))"

text \<open>
  The padding of one axis, or the default interval. The subtraction, the
  multiplication by the literal \<open>0.1\<close> and the two updates are the binary64 ones.
\<close>

definition padAxis :: "extent \<Rightarrow> extent" where
  "padAxis e =
     (if isFinite (fst e) \<and> isFinite (snd e) then
        (let range = js_or (sub64 (snd e) (fst e)) (Fin 10);
             padding = mul64 range (round64 (1 / 10))
         in (sub64 (fst e) padding, add64 (snd e) padding))
      else (Fin (- 50), Fin 50))"

record AutoScaleLimits =
  minX :: jsnum
  maxX :: jsnum
  minY :: jsnum
  maxY :: jsnum
  minZ :: jsnum
  maxZ :: jsnum

definition calculateAutoScaleLimits :: "PanelData \<Rightarrow> Shape list \<Rightarrow> AutoScaleLimits" where
  "calculateAutoScaleLimits data objs =
     (case foldl (boundsStep data) ((PInf, NInf), (PInf, NInf), (PInf, NInf)) objs of
        (ex, ey, ez) \<Rightarrow>
          \<lparr>minX = fst (padAxis ex), maxX = snd (padAxis ex),
           minY = fst (padAxis ey), maxY = snd (padAxis ey),
           minZ = fst (padAxis ez), maxZ = snd (padAxis ez)\<rparr>)"

subsection \<open>Contributions to an axis, to state the properties of the bounds\<close>

datatype Axis = AxisX | AxisY | AxisZ

fun axisPosition :: "Axis \<Rightarrow> Position3 \<Rightarrow> DataField" where
  "axisPosition AxisX p = posX p"
| "axisPosition AxisY p = posY p"
| "axisPosition AxisZ p = posZ p"

fun axisPoints :: "Axis \<Rightarrow> PolylineProps \<Rightarrow> DataField" where
  "axisPoints AxisX l = pointsX l"
| "axisPoints AxisY l = pointsY l"
| "axisPoints AxisZ l = pointsZ l"

text \<open>
  What one shape contributes to an axis: nothing when it is not visible, all its
  resolved points when it is a polyline, its last resolved position otherwise.
\<close>

fun contribution :: "Axis \<Rightarrow> PanelData \<Rightarrow> Shape \<Rightarrow> jsnum list" where
  "contribution ax data shape =
     (if \<not> visible (base shape) then []
      else
        (case shape of
           PolylineShape b l \<Rightarrow> getDataFieldValue data (Some (axisPoints ax l)) (Fin 0)
         | _ \<Rightarrow>
             (case positionFields shape of
                None \<Rightarrow> []
              | Some p \<Rightarrow> [fst (getLastDataFieldValue data (Some (axisPosition ax p)) (Fin 0))])))"

definition contributions :: "Axis \<Rightarrow> PanelData \<Rightarrow> Shape list \<Rightarrow> jsnum list" where
  "contributions ax data objs = concat (map (contribution ax data) objs)"

fun axisLimits :: "Axis \<Rightarrow> AutoScaleLimits \<Rightarrow> extent" where
  "axisLimits AxisX b = (minX b, maxX b)"
| "axisLimits AxisY b = (minY b, maxY b)"
| "axisLimits AxisZ b = (minZ b, maxZ b)"

text \<open>
  The interval from \<open>lo\<close> to \<open>hi\<close> widened on both sides by a tenth of its length, or
  of \<open>10\<close> when it has none, every operation being rounded to binary64: the length
  \<open>hi - lo\<close>, its product with \<open>0.1\<close>, and the two bounds.
\<close>

definition range64 :: "real \<Rightarrow> real \<Rightarrow> jsnum" where
  "range64 lo hi = (if round64 (hi - lo) = Fin 0 then Fin 10 else round64 (hi - lo))"

definition widened :: "real \<Rightarrow> real \<Rightarrow> extent" where
  "widened lo hi =
     (sub64 (Fin lo) (mul64 (range64 lo hi) (round64 (1 / 10))),
      add64 (Fin hi) (mul64 (range64 lo hi) (round64 (1 / 10))))"

text \<open>The accumulated extent of one axis among the three.\<close>

fun pick :: "Axis \<Rightarrow> extent \<times> extent \<times> extent \<Rightarrow> extent" where
  "pick AxisX (ex, ey, ez) = ex"
| "pick AxisY (ex, ey, ez) = ey"
| "pick AxisZ (ex, ey, ez) = ez"

text \<open>
  A visible polyline whose \<open>x\<close> column holds \<open>0\<close>, \<open>NaN\<close> and \<open>10\<close>, read from a
  telemetry snapshot of one series.
\<close>

definition seriesGap :: DataFrame where
  "seriesGap = \<lparr>series_name = Some ''A'', series_refId = Some ''A'',
     series_fields = [\<lparr>field_name = ''x'',
       field_values = [JNumber (Fin 0), JNumber NaN, JNumber (Fin 10)]\<rparr>]\<rparr>"

definition polylineP :: Shape where
  "polylineP =
     PolylineShape \<lparr>shape_id = ''p'', shape_name = ''P'', visible = True\<rparr>
       \<lparr>pointsX = \<lparr>sourceType = field, df_value = ''x''\<rparr>,
        pointsY = constField ''0'', pointsZ = constField ''0'', closePath = False\<rparr>"

text \<open>A visible sphere placed by constants at \<open>(100000000000000000, 0, 0)\<close>.\<close>

definition sphereFar :: Shape where
  "sphereFar =
     SphereShape \<lparr>shape_id = ''f'', shape_name = ''F'', visible = True\<rparr>
       \<lparr>posX = constField ''100000000000000000'', posY = constField ''0'', posZ = constField ''0''\<rparr>
       \<lparr>autoRadius = True, radius = None, sphereAutoScaleFactor = None\<rparr>"

section \<open>Scene reconciliation\<close>

text \<open>
  Scene objects are shared between the scene graph and the id-to-object map, and
  are changed in place, so they live in a store addressed by references. The
  journal records, in order, each object a factory function builds and each object
  \<open>removeObjectsFromScene\<close> disposes of and removes; the code keeps no such record,
  it only serves to count.
\<close>

datatype Event = Created nat | Removed nat

text \<open>
  The outcome of the external loader for a model, taken as given: the size of the
  bounding box of the loaded meshes, or a failure.
\<close>

datatype LoadOutcome = Loaded Vector3 | LoadFailed

text \<open>
  A completion that is still outstanding when \<open>updateObjects\<close> of the manager
  returns: a built default cube waiting for its \<open>then\<close> callback, or a load with
  the version it captured.
\<close>

datatype Pending =
    AddLater nat string
  | LoadLater BaseShape Position3 ModelProps nat

record SceneState =
  store :: "nat \<Rightarrow> Object3D option"
  nextRef :: nat
  objectsRef :: "(string \<times> nat) list"
  sceneChildren :: "nat list"
  loadingVersions :: "(string \<times> nat) list"
  globalViewAngleSettings :: ViewAngleScalingConfig
  pendingLoads :: "Pending list"
  journal :: "Event list"

text \<open>\<open>Map.set\<close> and \<open>Map.delete\<close> on a map kept in insertion order.\<close>

fun mapSet :: "string \<Rightarrow> 'a \<Rightarrow> (string \<times> 'a) list \<Rightarrow> (string \<times> 'a) list" where
  "mapSet k v [] = [(k, v)]"
| "mapSet k v (p # ps) = (if fst p = k then (k, v) # ps else p # mapSet k v ps)"

definition mapDelete :: "string \<Rightarrow> (string \<times> 'a) list \<Rightarrow> (string \<times> 'a) list" where
  "mapDelete k m = filter (\<lambda>p. fst p \<noteq> k) m"

definition allocate :: "Object3D \<Rightarrow> SceneState \<Rightarrow> nat \<times> SceneState" where
  "allocate object s =
     (nextRef s,
      s\<lparr>store := (store s)(nextRef s \<mapsto> object), nextRef := Suc (nextRef s),
        journal := journal s @ [Created (nextRef s)]\<rparr>)"

definition removeObject :: "SceneState \<Rightarrow> string \<Rightarrow> SceneState" where
  "removeObject s k =
     (case map_of (objectsRef s) k of
        None \<Rightarrow> s
      | Some r \<Rightarrow>
          s\<lparr>sceneChildren := removeAll r (sceneChildren s),
            objectsRef := mapDelete k (objectsRef s),
            journal := journal s @ [Removed r]\<rparr>)"

definition removeObjectsFromScene :: "string list \<Rightarrow> SceneState \<Rightarrow> SceneState" where
  "removeObjectsFromScene objectsToRemove s = foldl removeObject s objectsToRemove"

definition addObjectToScene :: "nat \<Rightarrow> string \<Rightarrow> SceneState \<Rightarrow> SceneState" where
  "addObjectToScene r k s =
     s\<lparr>sceneChildren := removeAll r (sceneChildren s) @ [r],
       objectsRef := mapSet k r (objectsRef s)\<rparr>"

subsection \<open>The entity factory\<close>

definition lastPosition :: "PanelData \<Rightarrow> Position3 \<Rightarrow> Vector3" where
  "lastPosition data p =
     \<lparr>vx = fst (getLastDataFieldValue data (Some (posX p)) (Fin 0)),
      vy = fst (getLastDataFieldValue data (Some (posY p)) (Fin 0)),
      vz = fst (getLastDataFieldValue data (Some (posZ p)) (Fin 0))\<rparr>"

definition configFor :: "bool \<Rightarrow> SceneState \<Rightarrow> ViewAngleScalingConfig" where
  "configFor on s =
     \<lparr>enabled = on,
      targetAngularSize = targetAngularSize (globalViewAngleSettings s),
      minSize = minSize (globalViewAngleSettings s),
      maxSize = maxSize (globalViewAngleSettings s)\<rparr>"

text \<open>\<open>factor || 1\<close> for an optional factor.\<close>

definition factorOr1 :: "jsnum option \<Rightarrow> jsnum" where
  "factorOr1 f = (case f of None \<Rightarrow> Fin 1 | Some v \<Rightarrow> js_or v (Fin 1))"

definition unitScale :: "ModelProps \<Rightarrow> jsnum" where
  "unitScale m = (if unitMeters m then Fin (1 / 1000) else Fin 1)"

definition createSphere ::
  "PanelData \<Rightarrow> BaseShape \<Rightarrow> Position3 \<Rightarrow> SphereProps \<Rightarrow> SceneState \<Rightarrow> nat \<times> SceneState" where
  "createSphere data b p sp s =
     (let r = (case radius sp of
                 None \<Rightarrow> Fin 1
               | Some v \<Rightarrow> if \<not> autoRadius sp then v else Fin 1)
      in allocate
           \<lparr>position = lastPosition data p, shapeId = shape_id b, shapeType = sphere,
            originalSize = Some (js_mul r (Fin 2)),
            originalScale = Some (factorOr1 (sphereAutoScaleFactor sp)),
            aspectRatio = None, viewAngleConfig = Some (configFor (autoRadius sp) s),
            originalUrl = None\<rparr> s)"

definition createPolyline ::
  "PanelData \<Rightarrow> BaseShape \<Rightarrow> PolylineProps \<Rightarrow> SceneState \<Rightarrow> nat \<times> SceneState" where
  "createPolyline data b l s =
     allocate
       \<lparr>position = origin3, shapeId = shape_id b, shapeType = polyline,
        originalSize = None, originalScale = None, aspectRatio = None,
        viewAngleConfig = None, originalUrl = None\<rparr> s"

text \<open>The configuration \<open>{ enabled: false }\<close> of an annotation has no numbers.\<close>

definition createAnnotation ::
  "PanelData \<Rightarrow> BaseShape \<Rightarrow> Position3 \<Rightarrow> AnnotationProps \<Rightarrow> SceneState \<Rightarrow> nat \<times> SceneState" where
  "createAnnotation data b p a s =
     allocate
       \<lparr>position = origin3, shapeId = shape_id b, shapeType = annotation,
        originalSize = None, originalScale = None, aspectRatio = None,
        viewAngleConfig =
          Some \<lparr>enabled = False, targetAngularSize = NaN, minSize = NaN, maxSize = NaN\<rparr>,
        originalUrl = None\<rparr> s"

definition urlBlank :: "string \<Rightarrow> bool" where
  "urlBlank u = (u = [] \<or> trim u = [])"

definition createDefaultCube ::
  "PanelData \<Rightarrow> BaseShape \<Rightarrow> Position3 \<Rightarrow> ModelProps \<Rightarrow> SceneState \<Rightarrow> nat \<times> SceneState" where
  "createDefaultCube data b p m s =
     allocate
       \<lparr>position = lastPosition data p, shapeId = shape_id b, shapeType = model3d,
        originalSize = Some (Fin (2 * sqrt 3 / 3)),
        originalScale = Some (js_mul (factorOr1 (modelAutoScaleFactor m)) (unitScale m)),
        aspectRatio = Some (Fin 1), viewAngleConfig = Some (configFor (autoScale m) s),
        originalUrl = Some (url m)\<rparr> s"

text \<open>The object the success callback of the loader builds from the loaded size.\<close>

definition loadedModel ::
  "PanelData \<Rightarrow> BaseShape \<Rightarrow> Position3 \<Rightarrow> ModelProps \<Rightarrow> Vector3 \<Rightarrow> SceneState \<Rightarrow> Object3D" where
  "loadedModel data b p m totalSize s =
     \<lparr>position = lastPosition data p, shapeId = shape_id b, shapeType = model3d,
      originalSize = Some (Math_max (Math_max (vx totalSize) (vy totalSize)) (vz totalSize)),
      originalScale = Some (js_mul (factorOr1 (modelAutoScaleFactor m)) (unitScale m)),
      aspectRatio = Some (js_div (vx totalSize) (vy totalSize)),
      viewAngleConfig = Some (configFor (autoScale m) s),
      originalUrl = Some (url m)\<rparr>"

text \<open>
  The version a load captures: one more than the current version of the id, which
  is stored as the current one.
\<close>

definition bumpVersion :: "string \<Rightarrow> SceneState \<Rightarrow> nat \<times> SceneState" where
  "bumpVersion k s =
     (let v = Suc (case map_of (loadingVersions s) k of None \<Rightarrow> 0 | Some n \<Rightarrow> n)
      in (v, s\<lparr>loadingVersions := mapSet k v (loadingVersions s)\<rparr>))"

text \<open>
  \<open>create3DModel\<close> where the caller awaits it: the reference of the new model, or
  \<open>None\<close> when the load fails. Nothing else runs between the start of the load and
  its completion, so the version it captured is still the current one.
\<close>

definition create3DModel ::
  "PanelData \<Rightarrow> (string \<Rightarrow> LoadOutcome) \<Rightarrow> BaseShape \<Rightarrow> Position3 \<Rightarrow> ModelProps \<Rightarrow> SceneState
     \<Rightarrow> nat option \<times> SceneState" where
  "create3DModel data loader b p m s =
     (if urlBlank (url m) then
        (case createDefaultCube data b p m s of (r, s1) \<Rightarrow> (Some r, s1))
      else
        (case bumpVersion (shape_id b) s of
           (v, s1) \<Rightarrow>
             (case loader (url m) of
                LoadFailed \<Rightarrow> (None, s1)
              | Loaded totalSize \<Rightarrow>
                  (case allocate (loadedModel data b p m totalSize s1) s1 of
                     (r, s2) \<Rightarrow> (Some r, s2)))))"

subsection \<open>Updating a live object\<close>

text \<open>
  One shape of \<open>updateObjects\<close> of the object manager. A sphere and a model whose
  URL is the recorded one are changed in place; an annotation only has its callouts
  rebuilt, which are not represented; a polyline is removed and built anew; a model
  whose URL differs from the recorded one is removed, and its successor is added
  by a completion that is still outstanding when the function returns.
\<close>

definition updateShape :: "PanelData \<Rightarrow> SceneState \<Rightarrow> Shape \<Rightarrow> SceneState" where
  "updateShape data s shape =
     (if \<not> visible (base shape) then s
      else
        (case map_of (objectsRef s) (shape_id (base shape)) of
           None \<Rightarrow> s
         | Some r \<Rightarrow>
             (case store s r of
                None \<Rightarrow> s
              | Some existingObject \<Rightarrow>
                  (case shape of
                     SphereShape b p sp \<Rightarrow>
                       s\<lparr>store := (store s)(r \<mapsto>
                           existingObject
                             \<lparr>position := lastPosition data p,
                              originalSize :=
                                (case radius sp of
                                   None \<Rightarrow> originalSize existingObject
                                 | Some v \<Rightarrow>
                                     if \<not> autoRadius sp \<and> shapeType existingObject = sphere
                                     then Some (js_mul v (Fin 2))
                                     else originalSize existingObject),
                              viewAngleConfig := Some (configFor (autoRadius sp) s),
                              originalScale := Some (factorOr1 (sphereAutoScaleFactor sp))\<rparr>)\<rparr>
                   | AnnotationShape b p a \<Rightarrow> s
                   | ModelShape b p m \<Rightarrow>
                       if (case originalUrl existingObject of None \<Rightarrow> [] | Some u \<Rightarrow> u) \<noteq> url m
                       then
                         (let s1 = removeObject s (shape_id b)
                          in if urlBlank (url m) then
                               (case createDefaultCube data b p m s1 of
                                  (r1, s2) \<Rightarrow>
                                    s2\<lparr>pendingLoads := pendingLoads s2 @ [AddLater r1 (shape_id b)]\<rparr>)
                             else
                               (case bumpVersion (shape_id b) s1 of
                                  (v, s2) \<Rightarrow>
                                    s2\<lparr>pendingLoads := pendingLoads s2 @ [LoadLater b p m v]\<rparr>))
                       else
                         s\<lparr>store := (store s)(r \<mapsto>
                             existingObject
                               \<lparr>position := lastPosition data p,
                                viewAngleConfig := Some (configFor (autoScale m) s),
                                originalScale :=
                                  Some (js_mul (factorOr1 (modelAutoScaleFactor m)) (unitScale m)),
                                originalUrl := Some (url m)\<rparr>)\<rparr>
                   | PolylineShape b l \<Rightarrow>
                       (case createPolyline data b l (removeObject s (shape_id b)) of
                          (r1, s2) \<Rightarrow> addObjectToScene r1 (shape_id b) s2)))))"

definition managerUpdateObjects :: "PanelData \<Rightarrow> Shape list \<Rightarrow> SceneState \<Rightarrow> SceneState" where
  "managerUpdateObjects data objs s = foldl (updateShape data) s objs"

subsection \<open>The reconciliation pass\<close>

text \<open>The body of the loop of \<open>updateObjects\<close> of the scene component.\<close>

definition reconcileShape ::
  "PanelData \<Rightarrow> (string \<Rightarrow> LoadOutcome) \<Rightarrow> SceneState \<Rightarrow> Shape \<Rightarrow> SceneState" where
  "reconcileShape data loader s shape =
     (if \<not> visible (base shape) then
        (if map_of (objectsRef s) (shape_id (base shape)) \<noteq> None
         then removeObjectsFromScene [shape_id (base shape)] s
         else s)
      else if map_of (objectsRef s) (shape_id (base shape)) \<noteq> None then
        managerUpdateObjects data [shape] s
      else
        (case shape of
           SphereShape b p sp \<Rightarrow>
             (case createSphere data b p sp s of (r, s1) \<Rightarrow> addObjectToScene r (shape_id b) s1)
         | PolylineShape b l \<Rightarrow>
             (case createPolyline data b l s of (r, s1) \<Rightarrow> addObjectToScene r (shape_id b) s1)
         | AnnotationShape b p a \<Rightarrow>
             (case createAnnotation data b p a s of (r, s1) \<Rightarrow> addObjectToScene r (shape_id b) s1)
         | ModelShape b p m \<Rightarrow>
             (case create3DModel data loader b p m s of
                (None, s1) \<Rightarrow> s1
              | (Some r, s1) \<Rightarrow> addObjectToScene r (shape_id b) s1)))"

definition updateObjects ::
  "PanelData \<Rightarrow> (string \<Rightarrow> LoadOutcome) \<Rightarrow> Shape list \<Rightarrow> SceneState \<Rightarrow> SceneState" where
  "updateObjects data loader objs s =
     (let currentObjectIds = map fst (objectsRef s);
          newObjectIds = map (\<lambda>obj. shape_id (base obj)) (filter (\<lambda>obj. visible (base obj)) objs);
          objectsToRemove = filter (\<lambda>k. k \<notin> set newObjectIds) currentObjectIds
      in foldl (reconcileShape data loader) (removeObjectsFromScene objectsToRemove s) objs)"

text \<open>
  An outstanding completion: the \<open>then\<close> callback adds the built cube; a load whose
  captured version is no longer the current one is dropped, a failed load adds
  nothing, and a successful one builds the model and adds it.
\<close>

definition settle :: "PanelData \<Rightarrow> (string \<Rightarrow> LoadOutcome) \<Rightarrow> SceneState \<Rightarrow> Pending \<Rightarrow> SceneState" where
  "settle data loader s c =
     (case c of
        AddLater r k \<Rightarrow> addObjectToScene r k s
      | LoadLater b p m v \<Rightarrow>
          if map_of (loadingVersions s) (shape_id b) \<noteq> Some v then s
          else
            (case loader (url m) of
               LoadFailed \<Rightarrow> s
             | Loaded totalSize \<Rightarrow>
                 (case allocate (loadedModel data b p m totalSize s) s of
                    (r, s1) \<Rightarrow> addObjectToScene r (shape_id b) s1)))"

text \<open>
  A pass and then the completions it left outstanding, in the order they were
  issued. Passes do not overlap.
\<close>

definition reconcile ::
  "PanelData \<Rightarrow> (string \<Rightarrow> LoadOutcome) \<Rightarrow> Shape list \<Rightarrow> SceneState \<Rightarrow> SceneState" where
  "reconcile data loader objs s =
     (let s1 = updateObjects data loader objs s
      in foldl (settle data loader) (s1\<lparr>pendingLoads := []\<rparr>) (pendingLoads s1))"

definition emptyScene :: SceneState where
  "emptyScene =
     \<lparr>store = (\<lambda>r. None), nextRef = 0, objectsRef = [], sceneChildren = [],
      loadingVersions = [], globalViewAngleSettings = getDefaultConfig, pendingLoads = [],
      journal = []\<rparr>"

subsection \<open>Notions used to state the properties of a pass\<close>

text \<open>
  A shape whose live object is updated in place: a sphere, an annotation, or a
  model whose URL is the one recorded on the object.
\<close>

fun updatedInPlace :: "Shape \<Rightarrow> Object3D \<Rightarrow> bool" where
  "updatedInPlace (SphereShape b p sp) ob = True"
| "updatedInPlace (AnnotationShape b p a) ob = True"
| "updatedInPlace (PolylineShape b l) ob = False"
| "updatedInPlace (ModelShape b p m) ob =
     ((case originalUrl ob of None \<Rightarrow> [] | Some u \<Rightarrow> u) = url m)"

text \<open>A shape whose creation succeeds: any but a model whose load fails.\<close>

fun creatable :: "(string \<Rightarrow> LoadOutcome) \<Rightarrow> Shape \<Rightarrow> bool" where
  "creatable loader (ModelShape b p m) = (urlBlank (url m) \<or> loader (url m) \<noteq> LoadFailed)"
| "creatable loader shape = True"

text \<open>Three visible shapes \<open>A\<close>, \<open>B\<close> and \<open>C\<close>, and a polyline with the id of \<open>B\<close>.\<close>

definition sphereNamed :: "string \<Rightarrow> Shape" where
  "sphereNamed k =
     SphereShape \<lparr>shape_id = k, shape_name = k, visible = True\<rparr>
       \<lparr>posX = constField ''1'', posY = constField ''2'', posZ = constField ''3''\<rparr>
       \<lparr>autoRadius = True, radius = None, sphereAutoScaleFactor = None\<rparr>"

definition polylineNamed :: "string \<Rightarrow> Shape" where
  "polylineNamed k =
     PolylineShape \<lparr>shape_id = k, shape_name = k, visible = True\<rparr>
       \<lparr>pointsX = constField ''0,1'', pointsY = constField ''0,1'', pointsZ = constField ''0,0'',
        closePath = False\<rparr>"

definition noLoader :: "string \<Rightarrow> LoadOutcome" where
  "noLoader u = LoadFailed"

section \<open>Properties of rounding to binary64\<close>

lemma rte_of_int [simp]: "roundTiesToEven (of_int n) = n"
  by (simp add: roundTiesToEven_def)

lemma rte_lower: "\<lfloor>q\<rfloor> \<le> roundTiesToEven q"
  by (simp add: roundTiesToEven_def Let_def)

lemma rte_upper: "roundTiesToEven q \<le> \<lfloor>q\<rfloor> + 1"
  by (simp add: roundTiesToEven_def Let_def)

lemma rte_mono:
  assumes "q \<le> q'"
  shows "roundTiesToEven q \<le> roundTiesToEven q'"
proof (cases "\<lfloor>q\<rfloor> = \<lfloor>q'\<rfloor>")
  case True
  then show ?thesis using assms by (auto simp: roundTiesToEven_def Let_def)
next
  case False
  then have "\<lfloor>q\<rfloor> + 1 \<le> \<lfloor>q'\<rfloor>" using floor_mono[OF assms] by linarith
  then show ?thesis using rte_upper[of q] rte_lower[of q'] by linarith
qed

lemma rte_minus: "roundTiesToEven (- q) = - roundTiesToEven q"
proof (cases "q = of_int \<lfloor>q\<rfloor>")
  case True
  then obtain n where "q = of_int n" by metis
  then have "- q = of_int (- n)" by simp
  then show ?thesis using \<open>q = of_int n\<close> by (metis rte_of_int)
next
  case False
  then have lt: "of_int \<lfloor>q\<rfloor> < q" by linarith
  have fl: "\<lfloor>- q\<rfloor> = - \<lfloor>q\<rfloor> - 1"
    using lt by (simp add: floor_eq_iff) linarith
  show ?thesis
    using lt by (auto simp: roundTiesToEven_def Let_def fl)
qed

lemma rte_nonneg: "0 \<le> q \<Longrightarrow> 0 \<le> roundTiesToEven q"
  using rte_mono[of 0 q] rte_of_int[of 0] by simp

text \<open>The exponent is that of the binade of \<open>x\<close>.\<close>

lemma log2_lower: "x \<noteq> 0 \<Longrightarrow> 2 powi \<lfloor>log 2 \<bar>x\<bar>\<rfloor> \<le> \<bar>x\<bar>"
  using floor_log_eq_powr_iff[of "\<bar>x\<bar>" 2 "\<lfloor>log 2 \<bar>x\<bar>\<rfloor>"]
  by (simp add: powr_real_of_int')

lemma log2_upper: "x \<noteq> 0 \<Longrightarrow> \<bar>x\<bar> < 2 powi (\<lfloor>log 2 \<bar>x\<bar>\<rfloor> + 1)"
proof -
  assume "x \<noteq> 0"
  then have "\<bar>x\<bar> < 2 powr (real_of_int (\<lfloor>log 2 \<bar>x\<bar>\<rfloor> + 1))"
    using floor_log_eq_powr_iff[of "\<bar>x\<bar>" 2 "\<lfloor>log 2 \<bar>x\<bar>\<rfloor>"] by simp
  then show ?thesis by (simp only: powr_real_of_int'[of 2, simplified])
qed

lemma floor_log2_eq:
  assumes "2 powi k \<le> \<bar>x\<bar>" "\<bar>x\<bar> < 2 powi (k + 1)"
  shows "\<lfloor>log 2 \<bar>x\<bar>\<rfloor> = k"
proof -
  have "0 < (2::real) powi k" by simp
  then have pos: "0 < \<bar>x\<bar>" using assms(1) by linarith
  have "2 powr (real_of_int k) \<le> \<bar>x\<bar>" using assms(1) by (simp add: powr_real_of_int')
  moreover have "\<bar>x\<bar> < 2 powr (real_of_int (k + 1))"
    using assms(2) by (simp only: powr_real_of_int'[of 2, simplified])
  ultimately show ?thesis
    using floor_log_eq_powr_iff[of "\<bar>x\<bar>" 2 k] pos by simp
qed

lemma ulpExponent_eq:
  assumes "2 powi k \<le> \<bar>x\<bar>" "\<bar>x\<bar> < 2 powi (k + 1)"
  shows "ulpExponent x = max (k - 52) (- 1074)"
  by (simp add: ulpExponent_def floor_log2_eq[OF assms])

lemma ulpExponent_minus [simp]: "ulpExponent (- x) = ulpExponent x"
  by (simp add: ulpExponent_def)

lemma ulpExponent_mono:
  assumes "0 < x" "x \<le> y"
  shows "ulpExponent x \<le> ulpExponent y"
proof -
  have "log 2 x \<le> log 2 y" using assms by simp
  then have "\<lfloor>log 2 x\<rfloor> \<le> \<lfloor>log 2 y\<rfloor>" by (rule floor_mono)
  then show ?thesis using assms by (simp add: ulpExponent_def)
qed

text \<open>Rounding is odd and monotone.\<close>

lemma nearest64_minus: "nearest64 (- x) = - nearest64 x"
  by (simp add: nearest64_def rte_minus)

lemma nearest64_nonneg: "0 \<le> x \<Longrightarrow> 0 \<le> nearest64 x"
  by (simp add: nearest64_def rte_nonneg)

lemma nearest64_mono_pos:
  assumes "0 < x" "x \<le> y"
  shows "nearest64 x \<le> nearest64 y"
proof -
  define ex where "ex = ulpExponent x"
  define ey where "ey = ulpExponent y"
  have le: "ex \<le> ey" using ulpExponent_mono[OF assms] by (simp add: ex_def ey_def)
  have p: "0 < (2::real) powi ex" "0 < (2::real) powi ey" by simp_all
  show ?thesis
  proof (cases "ex = ey")
    case True
    have "x / 2 powi ex \<le> y / 2 powi ex" using assms p by (simp add: divide_right_mono)
    then have "roundTiesToEven (x / 2 powi ex) \<le> roundTiesToEven (y / 2 powi ex)" by (rule rte_mono)
    then have "real_of_int (roundTiesToEven (x / 2 powi ex)) * 2 powi ex
                \<le> real_of_int (roundTiesToEven (y / 2 powi ex)) * 2 powi ex"
      using p by (simp add: mult_right_mono)
    then show ?thesis using True by (simp add: nearest64_def ex_def ey_def)
  next
    case False
    then have lt: "ex < ey" using le by simp
    define kx where "kx = \<lfloor>log 2 \<bar>x\<bar>\<rfloor>"
    define ky where "ky = \<lfloor>log 2 \<bar>y\<bar>\<rfloor>"
    have exk: "kx - 52 \<le> ex" "- 1074 \<le> ex" by (simp_all add: ex_def ulpExponent_def kx_def)
    have eyk: "ey = ky - 52" using lt exk unfolding ey_def ulpExponent_def ky_def by linarith
    have xne: "x \<noteq> 0" "y \<noteq> 0" using assms by simp_all
    have "x < 2 powi (kx + 1)" using log2_upper[OF xne(1)] assms by (simp add: kx_def)
    also have "\<dots> \<le> 2 powi (53 + ex)" using exk by (intro power_int_increasing) simp_all
    finally have "x \<le> 2 powi (53 + ex)" by simp
    then have "x / 2 powi ex \<le> 2 powi (53 + ex) / 2 powi ex" using p by (simp add: divide_right_mono)
    also have "\<dots> = 2 ^ 53" by (simp add: power_int_add)
    finally have "x / 2 powi ex \<le> real_of_int (2 ^ 53)" by simp
    then have "roundTiesToEven (x / 2 powi ex) \<le> roundTiesToEven (real_of_int (2 ^ 53))" by (rule rte_mono)
    then have mx: "roundTiesToEven (x / 2 powi ex) \<le> 2 ^ 53" by (simp only: rte_of_int)
    have "real_of_int (roundTiesToEven (x / 2 powi ex)) * 2 powi ex \<le> real_of_int (2 ^ 53) * 2 powi ex"
      using mx p by (intro mult_right_mono) simp_all
    also have "\<dots> = 2 powi (53 + ex)" by (simp add: power_int_add)
    also have "\<dots> \<le> 2 powi (52 + ey)" using lt by (intro power_int_increasing) simp_all
    finally have vx: "nearest64 x \<le> 2 powi (52 + ey)" by (simp add: nearest64_def ex_def)
    have "2 powi ky \<le> y" using log2_lower[OF xne(2)] assms by (simp add: ky_def)
    then have "2 powi ky / 2 powi ey \<le> y / 2 powi ey" using p by (simp add: divide_right_mono)
    moreover have "2 powi ky / 2 powi ey = (2::real) ^ 52" by (simp add: eyk power_int_diff)
    ultimately have "real_of_int (2 ^ 52) \<le> y / 2 powi ey" by simp
    then have "roundTiesToEven (real_of_int (2 ^ 52)) \<le> roundTiesToEven (y / 2 powi ey)" by (rule rte_mono)
    then have my: "2 ^ 52 \<le> roundTiesToEven (y / 2 powi ey)" by (simp only: rte_of_int)
    have "2 powi (52 + ey) = real_of_int (2 ^ 52) * 2 powi ey" by (simp add: power_int_add)
    also have "\<dots> \<le> real_of_int (roundTiesToEven (y / 2 powi ey)) * 2 powi ey"
      using my p by (intro mult_right_mono) simp_all
    finally have vy: "2 powi (52 + ey) \<le> nearest64 y" by (simp add: nearest64_def ey_def)
    show ?thesis using vx vy by linarith
  qed
qed

lemma round64_minus: "round64 (- x) = js_neg (round64 x)"
  by (simp add: round64_def nearest64_minus inf_of_sign_def)

lemma round64_nonneg:
  assumes "0 \<le> x"
  shows "round64 x = PInf \<or> (\<exists>v\<ge>0. round64 x = Fin v)"
  using assms nearest64_nonneg[OF assms] by (auto simp: round64_def inf_of_sign_def)

lemma js_le_neg: "js_le (js_neg a) (js_neg b) = js_le b a"
  by (cases a; cases b) simp_all

lemma round64_mono_pos:
  assumes "0 < x" "x \<le> y"
  shows "js_le (round64 x) (round64 y)"
  using nearest64_mono_pos[OF assms] nearest64_nonneg[of x] nearest64_nonneg[of y] assms
  by (auto simp: round64_def inf_of_sign_def)

lemma round64_mono:
  assumes "x \<le> y"
  shows "js_le (round64 x) (round64 y)"
proof -
  consider "0 < x" | "x = 0" | "x < 0" "y < 0" | "x < 0" "0 \<le> y" by linarith
  then show ?thesis
  proof cases
    case 1
    then show ?thesis using round64_mono_pos assms by simp
  next
    case 2
    then show ?thesis using round64_nonneg[of y] assms by (auto simp: round64_def)
  next
    case 3
    then have "js_le (round64 (- y)) (round64 (- x))" using assms by (intro round64_mono_pos) simp_all
    then show ?thesis by (simp add: round64_minus js_le_neg)
  next
    case 4
    have "round64 (- x) = PInf \<or> (\<exists>v\<ge>0. round64 (- x) = Fin v)" using 4 by (intro round64_nonneg) simp
    then have a: "round64 x = NInf \<or> (\<exists>v\<le>0. round64 x = Fin v)"
      by (cases "round64 x") (auto simp: round64_minus)
    show ?thesis using a round64_nonneg[OF 4(2)] by auto
  qed
qed

text \<open>The value of \<open>round64\<close> in a given binade, and the numbers it leaves unchanged.\<close>

lemma round64_eval:
  assumes "2 powi k \<le> \<bar>x\<bar>" "\<bar>x\<bar> < 2 powi (k + 1)" "e = max (k - 52) (- 1074)"
    and "m = roundTiesToEven (x / 2 powi e)"
  shows "round64 x = (if 2 ^ 1024 \<le> \<bar>real_of_int m * 2 powi e\<bar> then inf_of_sign x
                        else Fin (real_of_int m * 2 powi e))"
proof -
  have "x \<noteq> 0"
  proof
    assume "x = 0"
    then have "(2::real) powi k \<le> 0" using assms(1) by simp
    moreover have "0 < (2::real) powi k" by simp
    ultimately show False by linarith
  qed
  then show ?thesis
    by (simp add: round64_def nearest64_def ulpExponent_eq[OF assms(1,2)] assms(3,4))
qed

lemma round64_exact:
  assumes "x = of_int m * 2 powi e" "\<bar>m\<bar> < 2 ^ 53" "- 1074 \<le> e" "e \<le> 971"
  shows "round64 x = Fin x"
proof (cases "m = 0")
  case True
  then show ?thesis using assms(1) by (simp add: round64_def)
next
  case False
  then have xne: "x \<noteq> 0" using assms(1) by simp
  define k where "k = \<lfloor>log 2 \<bar>x\<bar>\<rfloor>"
  define E where "E = ulpExponent x"
  have absx: "\<bar>x\<bar> = real_of_int \<bar>m\<bar> * 2 powi e" by (simp add: assms(1) abs_mult)
  have "real_of_int \<bar>m\<bar> < real_of_int (2 ^ 53)" using assms(2) by (simp only: of_int_less_iff)
  then have "\<bar>x\<bar> < 2 ^ 53 * 2 powi e" by (simp add: absx)
  also have "\<dots> = 2 powi (53 + e)" by (simp add: power_int_add)
  finally have ub: "\<bar>x\<bar> < 2 powi (53 + e)" .
  have "k < 53 + e"
  proof (rule ccontr)
    assume "\<not> k < 53 + e"
    then have "(2::real) powi (53 + e) \<le> 2 powi k" by (intro power_int_increasing) simp_all
    then show False using log2_lower[OF xne] ub by (simp add: k_def)
  qed
  then have Ee: "E \<le> e" using assms(3) by (simp add: E_def ulpExponent_def k_def)
  have "x / 2 powi E = real_of_int m * 2 powi (e - E)" by (simp add: assms(1) power_int_diff)
  also have "\<dots> = real_of_int (m * 2 ^ nat (e - E))" using Ee by (simp add: power_int_def)
  finally have q: "roundTiesToEven (x / 2 powi E) = m * 2 ^ nat (e - E)" by (simp only: rte_of_int)
  have "real_of_int (m * 2 ^ nat (e - E)) * 2 powi E = real_of_int m * (2 powi (e - E) * 2 powi E)"
    using Ee by (simp add: power_int_def)
  also have "\<dots> = x" by (simp add: assms(1) flip: power_int_add)
  finally have v: "nearest64 x = x" by (simp add: nearest64_def q flip: E_def)
  have "(2::real) powi (53 + e) \<le> 2 powi 1024" using assms(4) by (intro power_int_increasing) simp_all
  then have "\<bar>x\<bar> < 2 ^ 1024" using ub by simp
  then show ?thesis using xne by (simp add: round64_def v)
qed

lemma round64_int:
  assumes "\<bar>n\<bar> < 2 ^ 53"
  shows "round64 (of_int n) = Fin (of_int n)"
  using round64_exact[of "of_int n" n 0] assms by simp

lemma round64_big:
  assumes "2 ^ 1024 \<le> x"
  shows "round64 x = PInf"
proof -
  have m: "roundTiesToEven (2 ^ 1024 / 2 powi 972) = 2 ^ 52"
    by (simp add: roundTiesToEven_def)
  have "round64 (2 ^ 1024) = PInf"
    using round64_eval[of 1024 "2 ^ 1024" 972 "2 ^ 52"] m by (simp add: inf_of_sign_def)
  then have "js_le PInf (round64 x)" using round64_mono[OF assms] by simp
  then show ?thesis by (cases "round64 x") simp_all
qed

text \<open>The exponent computed from the number of bits of an integer.\<close>

lemma floor_log2_ge1:
  assumes "1 \<le> \<bar>x\<bar>"
  shows "\<lfloor>log 2 \<bar>x\<bar>\<rfloor> = bitlen \<lfloor>\<bar>x\<bar>\<rfloor> - 1"
proof -
  define n where "n = \<lfloor>\<bar>x\<bar>\<rfloor>"
  have n: "0 < n" using assms by (simp add: n_def)
  have b: "2 ^ nat (bitlen n - 1) \<le> n" "n < 2 ^ nat (bitlen n)" using bitlen_bounds[OF n] by simp_all
  have b1: "1 \<le> bitlen n" using n by (simp add: bitlen_alt_def)
  have "real_of_int (2 ^ nat (bitlen n - 1)) \<le> real_of_int n" using b(1) by (simp only: of_int_le_iff)
  then have "2 ^ nat (bitlen n - 1) \<le> real_of_int n" by simp
  also have "\<dots> \<le> \<bar>x\<bar>" by (simp add: n_def)
  finally have lo: "2 powi (bitlen n - 1) \<le> \<bar>x\<bar>" using b1 by (simp add: power_int_def)
  have "n + 1 \<le> 2 ^ nat (bitlen n)" using b(2) by simp
  then have "real_of_int (n + 1) \<le> real_of_int (2 ^ nat (bitlen n))" by (simp only: of_int_le_iff)
  moreover have "\<bar>x\<bar> < real_of_int (n + 1)" by (simp add: n_def)
  ultimately have "\<bar>x\<bar> < 2 ^ nat (bitlen n)" by simp
  then have hi: "\<bar>x\<bar> < 2 powi (bitlen n - 1 + 1)" using b1 by (simp add: power_int_def)
  show ?thesis using floor_log2_eq[OF lo hi] by (simp add: n_def)
qed

lemma floor_log2_lt1:
  assumes "x \<noteq> 0" "\<bar>x\<bar> < 1"
  shows "\<lfloor>log 2 \<bar>x\<bar>\<rfloor> = - bitlen (\<lceil>1 / \<bar>x\<bar>\<rceil> - 1)"
proof -
  define y where "y = 1 / \<bar>x\<bar>"
  define c where "c = \<lceil>y\<rceil>"
  define j where "j = bitlen (c - 1)"
  have xp: "0 < \<bar>x\<bar>" using assms(1) by simp
  have y1: "1 < y" using assms xp by (simp add: y_def)
  have c2: "0 < c - 1" using y1 by (simp add: c_def)
  have b: "2 ^ nat (j - 1) \<le> c - 1" "c - 1 < 2 ^ nat j" using bitlen_bounds[OF c2] by (simp_all add: j_def)
  have j1: "1 \<le> j" using c2 by (simp add: bitlen_alt_def j_def)
  have "c \<le> 2 ^ nat j" using b(2) by simp
  then have "real_of_int c \<le> real_of_int (2 ^ nat j)" by (simp only: of_int_le_iff)
  then have "real_of_int c \<le> 2 ^ nat j" by simp
  moreover have "y \<le> real_of_int c" by (simp add: c_def)
  ultimately have yu: "y \<le> 2 ^ nat j" by linarith
  have "real_of_int (2 ^ nat (j - 1)) \<le> real_of_int (c - 1)" using b(1) by (simp only: of_int_le_iff)
  then have "2 ^ nat (j - 1) \<le> real_of_int (c - 1)" by simp
  moreover have "real_of_int (c - 1) < y" unfolding c_def by linarith
  ultimately have yl: "2 ^ nat (j - 1) < y" by linarith
  have xy: "\<bar>x\<bar> = 1 / y" using xp by (simp add: y_def)
  have "(2::real) powi (- j) = inverse (2 powi j)" by (rule power_int_minus)
  also have "\<dots> = 1 / 2 ^ nat j" using j1 by (simp add: power_int_def inverse_eq_divide)
  finally have pj: "(2::real) powi (- j) = 1 / 2 ^ nat j" .
  have "(2::real) powi (- j + 1) = 2 powi (- (j - 1))" by simp
  also have "\<dots> = inverse (2 powi (j - 1))" by (rule power_int_minus)
  also have "\<dots> = 1 / 2 ^ nat (j - 1)" using j1 by (simp add: power_int_def inverse_eq_divide)
  finally have pj1: "(2::real) powi (- j + 1) = 1 / 2 ^ nat (j - 1)" .
  have "1 / 2 ^ nat j \<le> 1 / y" using yu y1 by (intro divide_left_mono) simp_all
  then have lo: "2 powi (- j) \<le> \<bar>x\<bar>" by (simp only: pj xy)
  have "1 / y < 1 / 2 ^ nat (j - 1)" using yl y1 by (intro divide_strict_left_mono) simp_all
  then have hi: "\<bar>x\<bar> < 2 powi (- j + 1)" by (simp only: pj1 xy)
  show ?thesis using floor_log2_eq[OF lo hi] by (simp add: j_def c_def y_def)
qed

lemma ulpExponent_code [code]:
  "ulpExponent x =
     (if x = 0 then - 52
      else max ((if 1 \<le> \<bar>x\<bar> then bitlen \<lfloor>\<bar>x\<bar>\<rfloor> - 1 else - bitlen (\<lceil>1 / \<bar>x\<bar>\<rceil> - 1)) - 52) (- 1074))"
proof (cases "x = 0")
  case True
  then show ?thesis by (simp add: ulpExponent_def log_def)
next
  case False
  then show ?thesis using floor_log2_ge1[of x] floor_log2_lt1[of x] by (simp add: ulpExponent_def)
qed

lemma round64_not_NaN: "round64 x \<noteq> NaN"
  by (simp add: round64_def inf_of_sign_def)

lemma round64_numeral: "(numeral n :: int) < 2 ^ 53 \<Longrightarrow> round64 (numeral n) = Fin (numeral n)"
  using round64_int[of "numeral n"] by simp

lemma round64_one: "round64 1 = Fin 1"
  using round64_int[of 1] by simp

lemma round64_tenth: "round64 (1 / 10) = Fin (3602879701896397 / 36028797018963968)"
proof -
  have m: "roundTiesToEven (1 / 10 / 2 powi (- 56)) = 7205759403792794"
    by (simp add: roundTiesToEven_def)
  show ?thesis
    using round64_eval[of "- 4" "1 / 10" "- 56" 7205759403792794] m by (simp add: inf_of_sign_def)
qed

lemma padding_of_ten: "mul64 (Fin 10) (round64 (1 / 10)) = Fin 1"
proof -
  have m: "roundTiesToEven (10 * (3602879701896397 / 36028797018963968) / 2 powi (- 52)) = 4503599627370496"
    by (simp add: roundTiesToEven_def)
  show ?thesis
    using round64_eval[of 0 "10 * (3602879701896397 / 36028797018963968)" "- 52" 4503599627370496] m
    by (simp add: mul64_def round64_tenth inf_of_sign_def)
qed

section \<open>Properties of the field resolver\<close>

text \<open>The numbers \<open>parseFloat\<close> reads from the literals of the examples.\<close>

lemma decimal_value_0: "decimal_value ''0'' = Some 0" by code_simp
lemma decimal_value_1: "decimal_value ''1'' = Some 1" by code_simp
lemma decimal_value_2: "decimal_value ''2'' = Some 2" by code_simp
lemma decimal_value_3: "decimal_value ''3'' = Some 3" by code_simp
lemma decimal_value_10: "decimal_value ''10'' = Some 10" by code_simp
lemma decimal_value_x: "decimal_value ''x'' = None" by code_simp
lemma decimal_value_1e17: "decimal_value ''100000000000000000'' = Some 100000000000000000"
  by (simp add: decimal_value_def is_digit_def digits_val_def scale10_def exponent_part_def)
lemma decimal_value_1e309: "decimal_value ''1e309'' = Some (10 ^ 309)"
  by (simp add: decimal_value_def is_digit_def digits_val_def scale10_def exponent_part_def)

lemma parseFloat_1: "parseFloat ''1'' = Fin 1"
  by (simp add: parseFloat_def unsigned_literal_def decimal_value_1 round64_one is_ws_def)

lemma parseFloat_2: "parseFloat ''2'' = Fin 2"
  by (simp add: parseFloat_def unsigned_literal_def decimal_value_2 round64_numeral is_ws_def)

lemma parseFloat_3: "parseFloat ''3'' = Fin 3"
  by (simp add: parseFloat_def unsigned_literal_def decimal_value_3 round64_numeral is_ws_def)

lemma parseFloat_0: "parseFloat ''0'' = Fin 0"
  by (simp add: parseFloat_def unsigned_literal_def decimal_value_0 round64_def is_ws_def)

lemma parseFloat_10: "parseFloat ''10'' = Fin 10"
  by (simp add: parseFloat_def unsigned_literal_def decimal_value_10 round64_numeral is_ws_def)



lemma parseFloat_x: "parseFloat ''x'' = NaN"
  by (simp add: parseFloat_def unsigned_literal_def decimal_value_x is_ws_def)

lemma parseFloat_1e17: "parseFloat ''100000000000000000'' = Fin 100000000000000000"
  using round64_exact[of 100000000000000000 6250000000000000 4]
  by (simp add: parseFloat_def unsigned_literal_def decimal_value_1e17 is_ws_def)

lemma parseFloat_1e309: "parseFloat ''1e309'' = PInf"
proof -
  have "(2::real) ^ 1024 \<le> 10 ^ 309" by simp
  then show ?thesis
    by (simp add: parseFloat_def unsigned_literal_def decimal_value_1e309 round64_big is_ws_def)
qed

lemma parseFloat_abc: "parseFloat ''abc'' = NaN" by code_simp

lemma split_comma_nonempty: "split_comma s \<noteq> []"
  by (induction s) (auto split: list.splits)

lemma findFieldBySeriesAndName_nonempty:
  "findFieldBySeriesAndName ss sn fn = Some r \<Longrightarrow> r \<noteq> []"
  by (induction ss) (auto simp: processFieldValues_def split: if_splits option.splits)

lemma findFieldByName_nonempty: "findFieldByName ss fn d \<noteq> []"
  by (induction ss) (auto simp: processFieldValues_def split: option.splits)

lemma getFieldFromDataSource_nonempty: "getFieldFromDataSource data f d \<noteq> []"
  by (auto simp: getFieldFromDataSource_def findFieldByName_nonempty
      dest: findFieldBySeriesAndName_nonempty split: option.splits prod.splits)

lemma getDataFieldValue_nonempty: "getDataFieldValue data fld d \<noteq> []"
  by (auto simp: getDataFieldValue_def Let_def split_comma_nonempty
      getFieldFromDataSource_nonempty split: option.splits)

text \<open>
  Claim C7. For every data field and default \<open>d\<close>, the array of
  \<open>getDataFieldValue\<close> has a last element, and \<open>getLastDataFieldValue\<close> returns that
  element, with no console output, when it is finite, and returns \<open>d\<close> with one
  warning when it is not. The function is total: no exception escapes it.
\<close>

theorem C7_last_value:
  "getDataFieldValue data fld d \<noteq> [] \<and>
   getLastDataFieldValue data fld d =
     (if isFinite (last (getDataFieldValue data fld d))
      then (last (getDataFieldValue data fld d), [])
      else (d, [Warn]))"
  using getDataFieldValue_nonempty[of data fld d]
  by (auto simp: getLastDataFieldValue_def split: list.splits)

text \<open>
  Claim C8. A constant data field with value \<open>"1,2,3"\<close> resolves to \<open>[1, 2, 3]\<close> as
  numbers and to \<open>["1", "2", "3"]\<close> as text (with either text resolver), whatever
  the telemetry and the default are.
\<close>

theorem C8_const_list:
  "getDataFieldValue data (Some \<lparr>sourceType = const, df_value = ''1,2,3''\<rparr>) d
     = [Fin 1, Fin 2, Fin 3]
   \<and> getFieldValueAsString str data (Some \<lparr>sourceType = const, df_value = ''1,2,3''\<rparr>) t
     = [''1'', ''2'', ''3'']
   \<and> getTextDataFieldValue str data (Some \<lparr>sourceType = const, df_value = ''1,2,3''\<rparr>) t
     = [''1'', ''2'', ''3'']"
proof -
  have s: "split_comma ''1,2,3'' = [''1'', ''2'', ''3'']" by code_simp
  have t: "trim ''1'' = ''1''" "trim ''2'' = ''2''" "trim ''3'' = ''3''" by code_simp+
  have "getDataFieldValue data (Some \<lparr>sourceType = const, df_value = ''1,2,3''\<rparr>) d
     = [Fin 1, Fin 2, Fin 3]"
    by (simp add: getDataFieldValue_def includes_comma_def s t constToken_def
        parseFloat_1 parseFloat_2 parseFloat_3)
  moreover have "getFieldValueAsString str data (Some \<lparr>sourceType = const, df_value = ''1,2,3''\<rparr>) t
     = [''1'', ''2'', ''3'']"
    by code_simp
  moreover have "getTextDataFieldValue str data (Some \<lparr>sourceType = const, df_value = ''1,2,3''\<rparr>) t
     = [''1'', ''2'', ''3'']"
    by code_simp
  ultimately show ?thesis by simp
qed

lemma findFieldBySeriesAndName_find:
  "findFieldBySeriesAndName ss sn fn =
     map_option (\<lambda>s. map processValue (fieldData s fn))
       (find (\<lambda>s. seriesMatches s sn \<and> hasData s fn) ss)"
  by (induction ss)
     (auto simp: hasData_def fieldData_def processFieldValues_def split: option.splits)

lemma findFieldByName_find:
  "findFieldByName ss fn d =
     (case find (\<lambda>s. hasData s fn) ss of
        Some s \<Rightarrow> map processValue (fieldData s fn) | None \<Rightarrow> [d])"
  by (induction ss)
     (auto simp: hasData_def fieldData_def processFieldValues_def split: option.splits)

lemma findFieldBySeriesAndNameAsString_find:
  "findFieldBySeriesAndNameAsString str ss sn fn =
     map_option (\<lambda>s. map str (fieldData s fn))
       (find (\<lambda>s. seriesMatches s sn \<and> hasData s fn) ss)"
  by (induction ss)
     (auto simp: hasData_def fieldData_def processFieldValuesAsString_def split: option.splits)

lemma findFieldByNameAsString_find:
  "findFieldByNameAsString str ss fn d =
     (case find (\<lambda>s. hasData s fn) ss of
        Some s \<Rightarrow> map str (fieldData s fn) | None \<Rightarrow> [d])"
  by (induction ss)
     (auto simp: hasData_def fieldData_def processFieldValuesAsString_def split: option.splits)

lemma scanTextSeries_no_match:
  "\<forall>s\<in>set ss. seriesMatches s sn \<longrightarrow> findField s fn = None \<Longrightarrow> sn \<noteq> [] \<Longrightarrow>
   scanTextSeries str ss (Some sn) fn t = [t]"
  by (induction ss) (auto simp: seriesMatches_def split: option.splits)

lemma bracketMatch_nonempty: "bracketMatch v = Some (a, b) \<Longrightarrow> a \<noteq> []"
  by (auto simp: bracketMatch_def Let_def split: list.splits if_splits)

lemma parseTextFieldReference_nonempty:
  "parseTextFieldReference v = (Some sn, fn) \<Longrightarrow> sn \<noteq> []"
  by (auto simp: parseTextFieldReference_def Let_def dest: bracketMatch_nonempty
      split: option.splits if_splits)

text \<open>
  Claim C2, as amended. Let the value of a telemetry-bound data field name a series
  \<open>sn\<close> and a field \<open>fn\<close>. Numeric resolution and \<open>getFieldValueAsString\<close> return
  the column of the first series whose name or ref-id is \<open>sn\<close> and whose first field
  named \<open>fn\<close> has a nonzero value count; when there is no such series they fall back
  to the first series of any name whose first field named \<open>fn\<close> has a nonzero value
  count, and yield the default only when no series at all has one.
  \<open>getTextDataFieldValue\<close> does not fall back: when no series whose name or ref-id is
  \<open>sn\<close> has a field named \<open>fn\<close>, it yields the default.
\<close>

theorem C2_series_qualified:
  "(parseFieldReference v = (Some sn, fn) \<longrightarrow>
      getDataFieldValue (Some series) (Some \<lparr>sourceType = field, df_value = v\<rparr>) d =
        (case find (\<lambda>s. seriesMatches s sn \<and> hasData s fn) series of
           Some s \<Rightarrow> map processValue (fieldData s fn)
         | None \<Rightarrow>
             (case find (\<lambda>s. hasData s fn) series of
                Some s \<Rightarrow> map processValue (fieldData s fn)
              | None \<Rightarrow> [d]))
      \<and> getFieldValueAsString str (Some series) (Some \<lparr>sourceType = field, df_value = v\<rparr>) t =
        (case find (\<lambda>s. seriesMatches s sn \<and> hasData s fn) series of
           Some s \<Rightarrow> map str (fieldData s fn)
         | None \<Rightarrow>
             (case find (\<lambda>s. hasData s fn) series of
                Some s \<Rightarrow> map str (fieldData s fn)
              | None \<Rightarrow> [t])))
   \<and> (parseTextFieldReference v = (Some sn, fn) \<longrightarrow>
        (\<forall>s\<in>set series. seriesMatches s sn \<longrightarrow> findField s fn = None) \<longrightarrow>
        getTextDataFieldValue str (Some series) (Some \<lparr>sourceType = field, df_value = v\<rparr>) t = [t])"
proof (intro conjI impI)
  assume p: "parseFieldReference v = (Some sn, fn)"
  show "getDataFieldValue (Some series) (Some \<lparr>sourceType = field, df_value = v\<rparr>) d =
        (case find (\<lambda>s. seriesMatches s sn \<and> hasData s fn) series of
           Some s \<Rightarrow> map processValue (fieldData s fn)
         | None \<Rightarrow>
             (case find (\<lambda>s. hasData s fn) series of
                Some s \<Rightarrow> map processValue (fieldData s fn)
              | None \<Rightarrow> [d]))"
    using p
    by (simp add: getDataFieldValue_def getFieldFromDataSource_def
        findFieldBySeriesAndName_find findFieldByName_find split: option.splits)
  show "getFieldValueAsString str (Some series) (Some \<lparr>sourceType = field, df_value = v\<rparr>) t =
        (case find (\<lambda>s. seriesMatches s sn \<and> hasData s fn) series of
           Some s \<Rightarrow> map str (fieldData s fn)
         | None \<Rightarrow>
             (case find (\<lambda>s. hasData s fn) series of
                Some s \<Rightarrow> map str (fieldData s fn)
              | None \<Rightarrow> [t]))"
    using p
    by (simp add: getFieldValueAsString_def getFieldFromDataSourceAsString_def
        findFieldBySeriesAndNameAsString_find findFieldByNameAsString_find split: option.splits)
next
  assume p: "parseTextFieldReference v = (Some sn, fn)"
    and n: "\<forall>s\<in>set series. seriesMatches s sn \<longrightarrow> findField s fn = None"
  from p have "sn \<noteq> []" by (rule parseTextFieldReference_nonempty)
  with n have "scanTextSeries str series (Some sn) fn t = [t]"
    by (simp add: scanTextSeries_no_match)
  with p show "getTextDataFieldValue str (Some series) (Some \<lparr>sourceType = field, df_value = v\<rparr>) t = [t]"
    by (simp add: getTextDataFieldValue_def getTextFieldFromDataSource_def)
qed

lemma parseFieldReference_B_x: "parseFieldReference ''B.x'' = (Some ''B'', ''x'')"
  by code_simp
lemma parseTextFieldReference_B_x: "parseTextFieldReference ''B.x'' = (Some ''B'', ''x'')"
  by code_simp

theorem C2_series_qualified_witness:
  "getDataFieldValue (Some [seriesA]) (Some \<lparr>sourceType = field, df_value = ''B.x''\<rparr>) (Fin 7) = [Fin 1]
   \<and> getFieldValueAsString showValue (Some [seriesA])
         (Some \<lparr>sourceType = field, df_value = ''B.x''\<rparr>) ''none'' = [''1'']
   \<and> getTextDataFieldValue showValue (Some [seriesA])
         (Some \<lparr>sourceType = field, df_value = ''B.x''\<rparr>) ''none'' = [''none'']"
  using C2_series_qualified[of "''B.x''" "''B''" "''x''" "[seriesA]" "Fin 7" showValue "''none''"]
  by (simp add: parseFieldReference_B_x parseTextFieldReference_B_x seriesA_def
      seriesMatches_def hasData_def fieldData_def findField_def showValue_def)

text \<open>
  The claim as first stated fails: with the only series named \<open>A\<close>, the reference
  \<open>B.x\<close> matches no series, and numeric resolution still returns the column \<open>x\<close> of
  \<open>A\<close> instead of the default \<open>7\<close>.
\<close>

theorem C2_fallback_counterexample:
  "\<not> list_ex (\<lambda>s. seriesMatches s ''B'') [seriesA]
   \<and> getDataFieldValue (Some [seriesA]) (Some \<lparr>sourceType = field, df_value = ''B.x''\<rparr>) (Fin 7) = [Fin 1]
   \<and> getDataFieldValue (Some [seriesA]) (Some \<lparr>sourceType = field, df_value = ''B.x''\<rparr>) (Fin 7) \<noteq> [Fin 7]"
  by code_simp


lemma find_Some_set: "find P xs = Some x \<Longrightarrow> x \<in> set xs"
  by (induction xs) (auto split: if_splits)

lemma fieldData_column:
  "hasData s fn \<Longrightarrow> \<exists>fd\<in>set (series_fields s). field_values fd \<noteq> [] \<and> fieldData s fn = field_values fd"
  by (auto simp: hasData_def fieldData_def findField_def dest: find_Some_set split: option.splits)

lemma findFieldByName_column:
  "findFieldByName ss fn d = [d] \<or>
   (\<exists>s\<in>set ss. \<exists>fd\<in>set (series_fields s). field_values fd \<noteq> [] \<and>
       findFieldByName ss fn d = map processValue (field_values fd))"
proof (cases "find (\<lambda>s. hasData s fn) ss")
  case None
  then show ?thesis by (simp add: findFieldByName_find)
next
  case (Some s)
  then have s: "s \<in> set ss" "hasData s fn"
    by (auto dest: find_Some_set simp: find_Some_iff)
  then obtain fd where fd: "fd \<in> set (series_fields s)" "field_values fd \<noteq> []"
      "fieldData s fn = field_values fd"
    using fieldData_column[of s fn] by blast
  from Some fd have "findFieldByName ss fn d = map processValue (field_values fd)"
    by (simp add: findFieldByName_find)
  with s fd show ?thesis by blast
qed

lemma findFieldBySeriesAndName_column:
  assumes "findFieldBySeriesAndName ss sn fn = Some r"
  shows "\<exists>s\<in>set ss. \<exists>fd\<in>set (series_fields s).
           field_values fd \<noteq> [] \<and> r = map processValue (field_values fd)"
proof -
  from assms obtain s where s: "find (\<lambda>s. seriesMatches s sn \<and> hasData s fn) ss = Some s"
    and r: "r = map processValue (fieldData s fn)"
    by (auto simp: findFieldBySeriesAndName_find)
  from s have m: "s \<in> set ss" "hasData s fn"
    by (auto dest: find_Some_set simp: find_Some_iff)
  then obtain fd where fd: "fd \<in> set (series_fields s)" "field_values fd \<noteq> []"
      "fieldData s fn = field_values fd"
    using fieldData_column[of s fn] by blast
  with r have "r = map processValue (field_values fd)" by simp
  with m fd show ?thesis by blast
qed

text \<open>
  Claim C3, as amended. A constant data field whose value is not empty, holds no
  comma and does not parse to a finite number (it holds no number, or one beyond
  the range of binary64, which reads as an infinity) resolves to the default alone,
  with no error. For a telemetry-bound field, numeric resolution yields the default
  alone or the conversion, value by value, of one non-empty column of the snapshot;
  the conversion returns a number as it is stored (also when it is \<open>NaN\<close> or an
  infinity), a string as the number \<open>parseFloat\<close> reads from it, or \<open>0\<close> when that is
  \<open>NaN\<close>, and any other value as \<open>0\<close>.
\<close>

theorem C3_unparsable_values:
  "(sourceType f = const \<longrightarrow> df_value f \<noteq> [] \<longrightarrow> \<not> includes_comma (df_value f) \<longrightarrow>
      \<not> isFinite (parseFloat (df_value f)) \<longrightarrow>
      getDataFieldValue data (Some f) d = [d])
   \<and> (sourceType f = field \<longrightarrow>
        getDataFieldValue (Some series) (Some f) d = [d] \<or>
        (\<exists>s\<in>set series. \<exists>fd\<in>set (series_fields s). field_values fd \<noteq> [] \<and>
           getDataFieldValue (Some series) (Some f) d = map processValue (field_values fd)))
   \<and> processValue (JNumber n) = n
   \<and> processValue (JString s) = (if isNaN (parseFloat s) then Fin 0 else parseFloat s)
   \<and> processValue JOther = Fin 0"
proof (intro conjI impI)
  assume "sourceType f = const" "df_value f \<noteq> []" "\<not> includes_comma (df_value f)"
    "\<not> isFinite (parseFloat (df_value f))"
  then show "getDataFieldValue data (Some f) d = [d]"
    by (simp add: getDataFieldValue_def)
next
  assume f: "sourceType f = field"
  show "getDataFieldValue (Some series) (Some f) d = [d] \<or>
        (\<exists>s\<in>set series. \<exists>fd\<in>set (series_fields s). field_values fd \<noteq> [] \<and>
           getDataFieldValue (Some series) (Some f) d = map processValue (field_values fd))"
  proof (cases "parseFieldReference (df_value f)")
    case (Pair so fn)
    show ?thesis
    proof (cases so)
      case None
      with Pair f findFieldByName_column[of series fn d] show ?thesis
        by (simp add: getDataFieldValue_def getFieldFromDataSource_def)
    next
      case (Some sn)
      show ?thesis
      proof (cases "findFieldBySeriesAndName series sn fn")
        case None
        with Pair Some f findFieldByName_column[of series fn d] show ?thesis
          by (simp add: getDataFieldValue_def getFieldFromDataSource_def)
      next
        case (Some r)
        with Pair \<open>so = Some sn\<close> f findFieldBySeriesAndName_column[OF Some] show ?thesis
          by (simp add: getDataFieldValue_def getFieldFromDataSource_def)
      qed
    qed
  qed
qed simp_all

theorem C3_unparsable_values_witness:
  "getDataFieldValue None (Some \<lparr>sourceType = const, df_value = ''abc''\<rparr>) (Fin 5) = [Fin 5]
   \<and> getDataFieldValue None (Some \<lparr>sourceType = const, df_value = ''1e309''\<rparr>) (Fin 5) = [Fin 5]
   \<and> getDataFieldValue (Some [seriesNonFinite]) (Some \<lparr>sourceType = field, df_value = ''x''\<rparr>) (Fin 5)
       = [NaN, PInf]"
proof -
  have a: "getDataFieldValue None (Some \<lparr>sourceType = const, df_value = ''abc''\<rparr>) (Fin 5) = [Fin 5]"
    using C3_unparsable_values[of "\<lparr>sourceType = const, df_value = ''abc''\<rparr>" None "Fin 5"]
    by (simp add: parseFloat_abc includes_comma_def)
  have b: "getDataFieldValue None (Some \<lparr>sourceType = const, df_value = ''1e309''\<rparr>) (Fin 5) = [Fin 5]"
    using C3_unparsable_values[of "\<lparr>sourceType = const, df_value = ''1e309''\<rparr>" None "Fin 5"]
    by (simp add: parseFloat_1e309 includes_comma_def)
  have c: "getDataFieldValue (Some [seriesNonFinite]) (Some \<lparr>sourceType = field, df_value = ''x''\<rparr>) (Fin 5)
       = [NaN, PInf]"
    by code_simp
  from a b c show ?thesis by simp
qed

text \<open>
  The claim as first stated fails twice. The token \<open>x\<close> of the constant \<open>"1,x"\<close>
  resolves to \<open>0\<close>, not to the default \<open>5\<close>; and the non-finite numbers of a
  telemetry column are returned unchanged, not replaced by the default.
\<close>

theorem C3_default_counterexample:
  "\<not> isFinite (parseFloat (trim ''x''))
   \<and> getDataFieldValue None (Some \<lparr>sourceType = const, df_value = ''1,x''\<rparr>) (Fin 5) = [Fin 1, Fin 0]
   \<and> getDataFieldValue None (Some \<lparr>sourceType = const, df_value = ''1,x''\<rparr>) (Fin 5) \<noteq> [Fin 1, Fin 5]
   \<and> getDataFieldValue (Some [seriesNonFinite]) (Some \<lparr>sourceType = field, df_value = ''x''\<rparr>) (Fin 5)
       = [NaN, PInf]
   \<and> getDataFieldValue (Some [seriesNonFinite]) (Some \<lparr>sourceType = field, df_value = ''x''\<rparr>) (Fin 5)
       \<noteq> [Fin 5, Fin 5]"
proof -
  have s: "split_comma ''1,x'' = [''1'', ''x'']" by code_simp
  have t: "trim ''1'' = ''1''" "trim ''x'' = ''x''" by code_simp+
  have a: "getDataFieldValue None (Some \<lparr>sourceType = const, df_value = ''1,x''\<rparr>) (Fin 5) = [Fin 1, Fin 0]"
    by (simp add: getDataFieldValue_def includes_comma_def s t constToken_def parseFloat_1 parseFloat_x)
  have b: "getDataFieldValue (Some [seriesNonFinite]) (Some \<lparr>sourceType = field, df_value = ''x''\<rparr>) (Fin 5)
       = [NaN, PInf]"
    by code_simp
  show ?thesis by (simp add: a b t parseFloat_x)
qed

text \<open>
  Claim C6 at a failing input. For a telemetry-bound field whose column exists and
  is empty, \<open>getTextDataFieldValue\<close> returns the empty array: neither an array of
  length at least one nor the default.
\<close>

theorem C6_text_resolution_empty:
  "getTextDataFieldValue str (Some [seriesEmpty]) (Some \<lparr>sourceType = field, df_value = ''x''\<rparr>) t = []"
  by code_simp


section \<open>Properties of view-angle scaling\<close>

lemma distanceTo_cameraAt: "d \<ge> 0 \<Longrightarrow> distanceTo (position (cameraAt d)) origin3 = Fin d"
  by (simp add: distanceTo_def cameraAt_def origin3_def js_sub_def)

lemma getObjectSize_sizeOf: "fst (getObjectSize box object) = sizeOf box object"
  by (simp add: getObjectSize_def sizeOf_def Let_def split: option.splits)

lemma getObjectSize_cache:
  "snd (getObjectSize box object) =
     (if (case originalSize object of None \<Rightarrow> False | Some s \<Rightarrow> truthy s) then object
      else object\<lparr>originalSize := Some (sizeOf box object)\<rparr>)"
  by (simp add: getObjectSize_def sizeOf_def Let_def split: option.splits)

lemma calculateViewBasedScale_one:
  "\<not> enabled config \<or> distanceTo (position camera) (position object) = Fin 0 \<Longrightarrow>
   calculateViewBasedScale box object camera config = (Fin 1, object)"
  by (auto simp: calculateViewBasedScale_def Let_def)

lemma calculateViewBasedScale_clamp:
  assumes "enabled config" "distanceTo (position camera) (position object) \<noteq> Fin 0"
  shows "fst (calculateViewBasedScale box object camera config) =
           clamp (rawScale box object camera config) (minSize config) (maxSize config)"
    and "snd (calculateViewBasedScale box object camera config) =
          (if (case originalSize object of None \<Rightarrow> False | Some s \<Rightarrow> truthy s) then object
           else object\<lparr>originalSize := Some (sizeOf box object)\<rparr>)"
  using assms
  by (simp_all add: calculateViewBasedScale_def Let_def clamp_def rawScale_def
      getObjectSize_sizeOf getObjectSize_cache)

lemma calculateViewBasedScale_frame:
  "aspectRatio (snd (calculateViewBasedScale box object camera config)) = aspectRatio object
   \<and> originalScale (snd (calculateViewBasedScale box object camera config)) = originalScale object"
  by (simp add: calculateViewBasedScale_def Let_def getObjectSize_cache)

lemma applyShapeAdjustment_clamp:
  "applyShapeAdjustment object baseScale =
     js_mul baseScale
       (clamp (case aspectRatio object of None \<Rightarrow> Fin 1 | Some a \<Rightarrow> if truthy a then a else Fin 1)
          (Fin (1 / 2)) (Fin 2))"
  by (cases "aspectRatio object") (simp_all add: applyShapeAdjustment_def clamp_def js_or_def)

lemma applyShapeAdjustment_cong:
  "aspectRatio a = aspectRatio b \<Longrightarrow> applyShapeAdjustment a baseScale = applyShapeAdjustment b baseScale"
  by (simp add: applyShapeAdjustment_def)

lemma viewAngleStep_enabled:
  assumes "viewAngleConfig object = Some config" "enabled config"
  shows "fst (viewAngleStep box camera object) =
          Some (js_mul (case originalScale object of None \<Rightarrow> Fin 1
                        | Some s \<Rightarrow> if truthy s then s else Fin 1)
                 (applyShapeAdjustment object
                    (fst (calculateViewBasedScale box object camera config))))"
proof -
  have a: "applyShapeAdjustment (snd (calculateViewBasedScale box object camera config)) b =
     applyShapeAdjustment object b" for b
    by (rule applyShapeAdjustment_cong) (simp add: calculateViewBasedScale_frame)
  show ?thesis
    using assms
    by (cases "originalScale object")
       (simp_all add: viewAngleStep_def Let_def a calculateViewBasedScale_frame js_or_def)
qed

lemma viewAngleStep_disabled:
  "viewAngleConfig object = Some config \<Longrightarrow> \<not> enabled config \<Longrightarrow>
   viewAngleStep box camera object = (None, object)"
  by (simp add: viewAngleStep_def)

text \<open>
  Claim C1, as amended. \<open>calculateViewBasedScale\<close> returns exactly \<open>1\<close>, and leaves
  the object alone, when scaling is disabled or the distance from the camera to
  the object is exactly zero. Otherwise it returns
  \<open>clamp(2 * distance * tan(targetAngularSize / 2) / originalSize, minSize, maxSize)\<close>
  with no aspect-ratio factor, where \<open>originalSize\<close> is the cached size when that is a
  nonzero number and otherwise the largest dimension of the bounding box, which is
  then cached. The factor \<open>clamp(aspectRatio || 1.0, 0.5, 2.0)\<close>, in which an absent,
  zero or \<open>NaN\<close> ratio counts as \<open>1\<close>, is multiplied in by \<open>applyShapeAdjustment\<close>. The
  per-frame pass applies both to an object whose configuration is enabled, also
  when the distance is zero, multiplies by \<open>originalScale || 1\<close>, and leaves the scale
  of an object whose configuration is disabled alone.
\<close>

theorem C1_scale_steps:
  "(\<not> enabled config \<or> distanceTo (position camera) (position object) = Fin 0 \<longrightarrow>
      calculateViewBasedScale box object camera config = (Fin 1, object))
   \<and> (enabled config \<and> distanceTo (position camera) (position object) \<noteq> Fin 0 \<longrightarrow>
        fst (calculateViewBasedScale box object camera config) =
          clamp (rawScale box object camera config) (minSize config) (maxSize config)
        \<and> snd (calculateViewBasedScale box object camera config) =
          (if (case originalSize object of None \<Rightarrow> False | Some s \<Rightarrow> truthy s) then object
           else object\<lparr>originalSize := Some (sizeOf box object)\<rparr>))
   \<and> applyShapeAdjustment object baseScale =
        js_mul baseScale
          (clamp (case aspectRatio object of None \<Rightarrow> Fin 1 | Some a \<Rightarrow> if truthy a then a else Fin 1)
             (Fin (1 / 2)) (Fin 2))
   \<and> (viewAngleConfig object = Some config \<and> enabled config \<longrightarrow>
        fst (viewAngleStep box camera object) =
          Some (js_mul (case originalScale object of None \<Rightarrow> Fin 1
                        | Some s \<Rightarrow> if truthy s then s else Fin 1)
                 (applyShapeAdjustment object
                    (fst (calculateViewBasedScale box object camera config)))))
   \<and> (viewAngleConfig object = Some config \<and> \<not> enabled config \<longrightarrow>
        viewAngleStep box camera object = (None, object))"
  using calculateViewBasedScale_one[of config camera object box]
    calculateViewBasedScale_clamp[of config camera object box]
    applyShapeAdjustment_clamp[of object baseScale]
    viewAngleStep_enabled[of object config box camera]
    viewAngleStep_disabled[of object config box camera]
  by blast

lemma wide_dist: "distanceTo (position (cameraAt 100)) (position wideObject) = Fin 100"
  using distanceTo_cameraAt[of 100] by (simp add: wideObject_def)

lemma wide_dist0: "distanceTo (position (cameraAt 0)) (position wideObject) = Fin 0"
  using distanceTo_cameraAt[of 0] by (simp add: wideObject_def)

lemma wide_sel: "viewAngleConfig wideObject = Some autoConfig"
  "aspectRatio wideObject = Some (Fin 2)" "originalScale wideObject = Some (Fin 1)"
  "originalSize wideObject = Some (Fin 2)"
  by (simp_all add: wideObject_def)

lemma autoConfig_sel: "enabled autoConfig" "targetAngularSize autoConfig = Fin (1 / 50)"
  "minSize autoConfig = Fin (1 / 10)" "maxSize autoConfig = Fin 10"
  by (simp_all add: autoConfig_def getDefaultConfig_def)

lemma wide_rawScale:
  "rawScale origin3 wideObject (cameraAt 100) autoConfig = Fin (100 * tan (1 / 100))"
  by (simp add: rawScale_def wide_dist sizeOf_def wide_sel autoConfig_sel)

theorem C1_scale_steps_witness:
  "calculateViewBasedScale origin3 wideObject (cameraAt 0) autoConfig = (Fin 1, wideObject)
   \<and> fst (calculateViewBasedScale origin3 wideObject (cameraAt 100) autoConfig)
     = Fin (max (1 / 10) (min 10 (100 * tan (1 / 100))))
   \<and> applyShapeAdjustment wideObject (Fin 1) = Fin 2
   \<and> fst (viewAngleStep origin3 (cameraAt 100) wideObject)
     = Some (Fin (max (1 / 10) (min 10 (100 * tan (1 / 100))) * 2))
   \<and> viewAngleStep origin3 (cameraAt 100) (wideObject\<lparr>viewAngleConfig := Some getDefaultConfig\<rparr>)
     = (None, wideObject\<lparr>viewAngleConfig := Some getDefaultConfig\<rparr>)"
proof -
  note c = C1_scale_steps[of autoConfig _ wideObject origin3]
  have 1: "calculateViewBasedScale origin3 wideObject (cameraAt 0) autoConfig = (Fin 1, wideObject)"
    using c[of "cameraAt 0" "Fin 1"] by (simp add: wide_dist0)
  have 2: "fst (calculateViewBasedScale origin3 wideObject (cameraAt 100) autoConfig)
     = Fin (max (1 / 10) (min 10 (100 * tan (1 / 100))))"
    using c[of "cameraAt 100" "Fin 1"]
    by (simp add: wide_dist wide_rawScale autoConfig_sel) (simp add: clamp_def)
  have 3: "applyShapeAdjustment wideObject (Fin 1) = Fin 2"
    using c[of "cameraAt 100" "Fin 1"] by (simp add: wide_sel clamp_def)
  have 5: "applyShapeAdjustment wideObject (Fin (max (1 / 10) (min 10 (100 * tan (1 / 100)))))
      = Fin (max (1 / 10) (min 10 (100 * tan (1 / 100))) * 2)"
    using c[of "cameraAt 100" "Fin (max (1 / 10) (min 10 (100 * tan (1 / 100))))"]
    by (simp add: wide_sel clamp_def)
  have 4: "fst (viewAngleStep origin3 (cameraAt 100) wideObject)
     = Some (Fin (max (1 / 10) (min 10 (100 * tan (1 / 100))) * 2))"
    using c[of "cameraAt 100" "Fin 1"]
    by (simp add: wide_sel autoConfig_sel 2 5)
  have 6: "viewAngleStep origin3 (cameraAt 100) (wideObject\<lparr>viewAngleConfig := Some getDefaultConfig\<rparr>)
     = (None, wideObject\<lparr>viewAngleConfig := Some getDefaultConfig\<rparr>)"
    using C1_scale_steps[of getDefaultConfig "cameraAt 100"
        "wideObject\<lparr>viewAngleConfig := Some getDefaultConfig\<rparr>" origin3 "Fin 1"]
    by (simp add: getDefaultConfig_def)
  from 1 2 3 4 6 show ?thesis by blast
qed

text \<open>
  The claim as first stated fails for an object of aspect ratio \<open>2\<close>. At distance
  \<open>100\<close> the scale function returns the clamped raw scale, not twice that value;
  at distance \<open>0\<close> the claimed scale is \<open>1\<close> while the per-frame pass, which is what
  multiplies the aspect factor in, assigns \<open>2\<close>.
\<close>

theorem C1_counterexample:
  "fst (calculateViewBasedScale origin3 wideObject (cameraAt 100) autoConfig)
     \<noteq> claimedScale origin3 wideObject (cameraAt 100) autoConfig
   \<and> claimedScale origin3 wideObject (cameraAt 0) autoConfig = Fin 1
   \<and> fst (viewAngleStep origin3 (cameraAt 0) wideObject) = Some (Fin 2)"
proof (intro conjI)
  have "fst (calculateViewBasedScale origin3 wideObject (cameraAt 100) autoConfig)
      = clamp (Fin (100 * tan (1 / 100))) (Fin (1 / 10)) (Fin 10)"
    using calculateViewBasedScale_clamp(1)[of autoConfig "cameraAt 100" wideObject origin3]
    by (simp add: wide_dist autoConfig_sel wide_rawScale)
  moreover have "claimedScale origin3 wideObject (cameraAt 100) autoConfig
      = js_mul (clamp (Fin (100 * tan (1 / 100))) (Fin (1 / 10)) (Fin 10)) (Fin 2)"
    by (simp add: claimedScale_def wide_dist autoConfig_sel wide_rawScale wide_sel)
       (simp add: clamp_def)
  ultimately show "fst (calculateViewBasedScale origin3 wideObject (cameraAt 100) autoConfig)
     \<noteq> claimedScale origin3 wideObject (cameraAt 100) autoConfig"
    by (simp add: clamp_def max_def min_def)
  show "claimedScale origin3 wideObject (cameraAt 0) autoConfig = Fin 1"
    by (simp add: claimedScale_def wide_dist0)
  have "calculateViewBasedScale origin3 wideObject (cameraAt 0) autoConfig = (Fin 1, wideObject)"
    by (rule calculateViewBasedScale_one) (simp add: wide_dist0)
  then show "fst (viewAngleStep origin3 (cameraAt 0) wideObject) = Some (Fin 2)"
    by (simp add: viewAngleStep_def wide_sel autoConfig_sel Let_def
        applyShapeAdjustment_def js_or_def)
qed


text \<open>
  Claim C4, as amended. Let the object have a positive cached size, the
  configuration be enabled with a target angular size strictly between \<open>0\<close> and
  \<open>\<pi>\<close> and finite bounds, and let two cameras be at distances \<open>d1\<close> and \<open>d2\<close> from the
  object with \<open>0 < d1 \<le> d2\<close>. Then both scales are finite, the scale at \<open>d1\<close> is at
  most the scale at \<open>d2\<close>, both are at least \<open>minSize\<close>, and both are at most
  \<open>maxSize\<close> provided \<open>minSize \<le> maxSize\<close>.
\<close>

theorem C4_scale_monotone:
  assumes "originalSize object = Some (Fin L)" "0 < L"
    and "enabled config" "targetAngularSize config = Fin a" "0 < a" "a < pi"
    and "minSize config = Fin lo" "maxSize config = Fin hi"
    and "distanceTo (position camera1) (position object) = Fin d1"
    and "distanceTo (position camera2) (position object) = Fin d2"
    and "0 < d1" "d1 \<le> d2"
  shows "\<exists>s1 s2. fst (calculateViewBasedScale box object camera1 config) = Fin s1
           \<and> fst (calculateViewBasedScale box object camera2 config) = Fin s2
           \<and> s1 \<le> s2 \<and> lo \<le> s1 \<and> lo \<le> s2
           \<and> (lo \<le> hi \<longrightarrow> s1 \<le> hi \<and> s2 \<le> hi)"
proof -
  have t: "0 < tan (a / 2)"
    using assms(5,6) by (intro tan_gt_zero) auto
  have sz: "sizeOf box object = Fin L"
    using assms(1,2) by (simp add: sizeOf_def)
  have r: "rawScale box object c config = Fin (2 * d * tan (a / 2) / L)"
    if "distanceTo (position c) (position object) = Fin d" for c d
    using that assms(2,4) by (simp add: rawScale_def sz)
  have e: "fst (calculateViewBasedScale box object c config)
      = Fin (max lo (min hi (2 * d * tan (a / 2) / L)))"
    if "distanceTo (position c) (position object) = Fin d" "0 < d" for c d
    using calculateViewBasedScale_clamp(1)[of config c object box] that assms(3,7,8) r[OF that(1)]
    by (simp add: clamp_def)
  have m: "2 * d1 * tan (a / 2) / L \<le> 2 * d2 * tan (a / 2) / L"
    using assms(2,12) t by (simp add: divide_le_cancel mult_right_mono)
  have d2: "0 < d2" using assms(11,12) by simp
  show ?thesis
    using e[OF assms(9,11)] e[OF assms(10) d2] m
    by (auto simp: max_def min_def)
qed

lemma invertedConfig_sel: "enabled invertedConfig" "targetAngularSize invertedConfig = Fin (1 / 50)"
  "minSize invertedConfig = Fin 5" "maxSize invertedConfig = Fin 1"
  by (simp_all add: invertedConfig_def)

lemma pi50: "(1::real) / 50 < pi"
  using pi_ge_two by simp

lemma wide_dist200: "distanceTo (position (cameraAt 200)) (position wideObject) = Fin 200"
  using distanceTo_cameraAt[of 200] by (simp add: wideObject_def)

theorem C4_scale_monotone_witness:
  "\<exists>s1 s2. fst (calculateViewBasedScale origin3 wideObject (cameraAt 100) autoConfig) = Fin s1
           \<and> fst (calculateViewBasedScale origin3 wideObject (cameraAt 200) autoConfig) = Fin s2
           \<and> s1 \<le> s2 \<and> 1 / 10 \<le> s1 \<and> 1 / 10 \<le> s2 \<and> s1 \<le> 10 \<and> s2 \<le> 10"
proof -
  have "\<exists>s1 s2. fst (calculateViewBasedScale origin3 wideObject (cameraAt 100) autoConfig) = Fin s1
           \<and> fst (calculateViewBasedScale origin3 wideObject (cameraAt 200) autoConfig) = Fin s2
           \<and> s1 \<le> s2 \<and> 1 / 10 \<le> s1 \<and> 1 / 10 \<le> s2
           \<and> ((1::real) / 10 \<le> 10 \<longrightarrow> s1 \<le> 10 \<and> s2 \<le> 10)"
    by (rule C4_scale_monotone[OF wide_sel(4) _ autoConfig_sel(1,2) _ pi50 autoConfig_sel(3,4)
          wide_dist wide_dist200]) simp_all
  then show ?thesis by simp
qed

text \<open>
  The claim as first stated fails for a configuration with \<open>minSize = 5\<close> and
  \<open>maxSize = 1\<close>: the scale is \<open>5\<close>, which is above \<open>maxSize\<close>.
\<close>

theorem C4_counterexample:
  "fst (calculateViewBasedScale origin3 wideObject (cameraAt 100) invertedConfig) = Fin 5
   \<and> maxSize invertedConfig = Fin 1
   \<and> Math_max (fst (calculateViewBasedScale origin3 wideObject (cameraAt 100) invertedConfig))
        (maxSize invertedConfig) \<noteq> maxSize invertedConfig"
proof -
  have "rawScale origin3 wideObject (cameraAt 100) invertedConfig = Fin (100 * tan (1 / 100))"
    by (simp add: rawScale_def wide_dist sizeOf_def wide_sel invertedConfig_sel)
  then have "fst (calculateViewBasedScale origin3 wideObject (cameraAt 100) invertedConfig) = Fin 5"
    using calculateViewBasedScale_clamp(1)[of invertedConfig "cameraAt 100" wideObject origin3]
    by (simp add: wide_dist invertedConfig_sel clamp_def max_def min_def)
  then show ?thesis by (simp add: invertedConfig_sel)
qed


section \<open>Properties of the camera axis presets\<close>







section \<open>Properties of the bounds estimator\<close>

lemma foldl_growExtent: "foldl growExtent e cs = (foldl Math_min (fst e) cs, foldl Math_max (snd e) cs)"
  by (induction cs arbitrary: e) (simp_all add: growExtent_def)

lemma boundsStep_pick:
  "pick ax (boundsStep data acc shape) = foldl growExtent (pick ax acc) (contribution ax data shape)"
  by (cases acc; cases ax; cases shape) (simp_all add: foldl_growExtent growExtent_def)

lemma foldl_boundsStep_pick:
  "pick ax (foldl (boundsStep data) acc objs) = foldl growExtent (pick ax acc) (contributions ax data objs)"
  by (induction objs arbitrary: acc) (simp_all add: contributions_def boundsStep_pick del: boundsStep.simps)

lemma axisLimits_calc:
  "axisLimits ax (calculateAutoScaleLimits data objs) =
     padAxis (foldl growExtent (PInf, NInf) (contributions ax data objs))"
proof -
  obtain ex ey ez where f: "foldl (boundsStep data) ((PInf, NInf), (PInf, NInf), (PInf, NInf)) objs = (ex, ey, ez)"
    by (cases "foldl (boundsStep data) ((PInf, NInf), (PInf, NInf), (PInf, NInf)) objs") auto
  have "pick ax (ex, ey, ez) = foldl growExtent (PInf, NInf) (contributions ax data objs)"
    using foldl_boundsStep_pick[of ax data "((PInf, NInf), (PInf, NInf), (PInf, NInf))" objs] f
    by (cases ax) simp_all
  then show ?thesis
    by (cases ax) (simp_all add: calculateAutoScaleLimits_def f)
qed


lemma foldl_Math_min_Fin: "foldl Math_min (Fin a) (map Fin rs) = Fin (Min (set (a # rs)))"
proof -
  have "foldl Math_min (Fin a) (map Fin rs) = Fin (foldl min a rs)"
    by (induction rs arbitrary: a) simp_all
  moreover have "foldl min a rs = fold min rs a"
    by (induction rs arbitrary: a) (simp_all add: min.commute)
  ultimately show ?thesis by (simp only: Min.set_eq_fold)
qed

lemma foldl_Math_max_Fin: "foldl Math_max (Fin a) (map Fin rs) = Fin (Max (set (a # rs)))"
proof -
  have "foldl Math_max (Fin a) (map Fin rs) = Fin (foldl max a rs)"
    by (induction rs arbitrary: a) simp_all
  moreover have "foldl max a rs = fold max rs a"
    by (induction rs arbitrary: a) (simp_all add: max.commute)
  ultimately show ?thesis by (simp only: Max.set_eq_fold)
qed

lemma extent_finite:
  assumes "rs \<noteq> []"
  shows "foldl growExtent (PInf, NInf) (map Fin rs) = (Fin (Min (set rs)), Fin (Max (set rs)))"
proof -
  from assms obtain a as where rs: "rs = a # as" by (cases rs) auto
  show ?thesis
    unfolding rs foldl_growExtent
    using foldl_Math_min_Fin[of a as] foldl_Math_max_Fin[of a as] by simp
qed

lemma Math_min_stuck: "a = NInf \<or> a = NaN \<Longrightarrow> foldl Math_min a cs = NInf \<or> foldl Math_min a cs = NaN"
proof (induction cs arbitrary: a)
  case Nil
  then show ?case by simp
next
  case (Cons c cs)
  have "Math_min a c = NInf \<or> Math_min a c = NaN"
    using Cons.prems by (cases c) auto
  then show ?case using Cons.IH by simp
qed

lemma Math_max_stuck: "a = PInf \<or> a = NaN \<Longrightarrow> foldl Math_max a cs = PInf \<or> foldl Math_max a cs = NaN"
proof (induction cs arbitrary: a)
  case Nil
  then show ?case by simp
next
  case (Cons c cs)
  have "Math_max a c = PInf \<or> Math_max a c = NaN"
    using Cons.prems by (cases c) auto
  then show ?case using Cons.IH by simp
qed

lemma extent_not_finite:
  "\<not> list_all isFinite cs \<Longrightarrow>
   \<not> (isFinite (foldl Math_min a cs) \<and> isFinite (foldl Math_max b cs))"
proof (induction cs arbitrary: a b)
  case Nil
  then show ?case by simp
next
  case (Cons c cs)
  show ?case
  proof (cases c)
    case (Fin r)
    with Cons show ?thesis by simp
  next
    case PInf
    have "Math_max b PInf = PInf \<or> Math_max b PInf = NaN" by (cases b) auto
    from Math_max_stuck[OF this, of cs] PInf show ?thesis by auto
  next
    case NInf
    have "Math_min a NInf = NInf \<or> Math_min a NInf = NaN" by (cases a) auto
    from Math_min_stuck[OF this, of cs] NInf show ?thesis by auto
  next
    case NaN
    have "Math_min a NaN = NInf \<or> Math_min a NaN = NaN" by (cases a) auto
    from Math_min_stuck[OF this, of cs] NaN show ?thesis by auto
  qed
qed

lemma padAxis_default:
  "cs = [] \<or> \<not> list_all isFinite cs \<Longrightarrow>
   padAxis (foldl growExtent (PInf, NInf) cs) = (Fin (- 50), Fin 50)"
  using extent_not_finite[of cs PInf NInf]
  by (auto simp: padAxis_def foldl_growExtent)

lemma padAxis_widened: "padAxis (Fin lo, Fin hi) = widened lo hi"
  using round64_not_NaN[of "hi - lo"]
  by (cases "round64 (hi - lo)")
     (simp_all add: padAxis_def widened_def range64_def js_or_def sub64_def js_sub_def Let_def)

lemma range64_cases:
  assumes "lo \<le> hi"
  shows "range64 lo hi = PInf \<or> (\<exists>w>0. range64 lo hi = Fin w)"
  using round64_nonneg[of "hi - lo"] assms by (auto simp: range64_def)

lemma padding_cases:
  assumes "lo \<le> hi"
  shows "mul64 (range64 lo hi) (round64 (1 / 10)) = PInf
         \<or> (\<exists>q\<ge>0. mul64 (range64 lo hi) (round64 (1 / 10)) = Fin q)"
proof -
  from range64_cases[OF assms] show ?thesis
  proof
    assume "range64 lo hi = PInf"
    then show ?thesis by (simp add: mul64_def round64_tenth inf_of_sign_def)
  next
    assume "\<exists>w>0. range64 lo hi = Fin w"
    then obtain w where w: "0 < w" "range64 lo hi = Fin w" by blast
    have "0 \<le> w * (3602879701896397 / 36028797018963968)" using w(1) by simp
    from round64_nonneg[OF this] show ?thesis by (simp add: mul64_def round64_tenth w(2))
  qed
qed

lemma widened_ordered:
  assumes "lo \<le> hi"
  shows "js_le (fst (widened lo hi)) (snd (widened lo hi))"
proof -
  from padding_cases[OF assms] show ?thesis
  proof
    assume "mul64 (range64 lo hi) (round64 (1 / 10)) = PInf"
    then show ?thesis by (simp add: widened_def sub64_def add64_def js_sub_def)
  next
    assume "\<exists>q\<ge>0. mul64 (range64 lo hi) (round64 (1 / 10)) = Fin q"
    then obtain q where q: "0 \<le> q" "mul64 (range64 lo hi) (round64 (1 / 10)) = Fin q" by blast
    have "lo - q \<le> hi + q" using assms q(1) by linarith
    from round64_mono[OF this] show ?thesis
      by (simp add: widened_def sub64_def add64_def js_sub_def q(2))
  qed
qed

lemma all_finite_map: "list_all isFinite cs \<Longrightarrow> \<exists>rs. cs = map Fin rs"
proof (induction cs)
  case Nil
  then show ?case by simp
next
  case (Cons c cs)
  then obtain rs where "cs = map Fin rs" by auto
  moreover from Cons.prems obtain r where "c = Fin r" by (cases c) auto
  ultimately have "c # cs = map Fin (r # rs)" by simp
  then show ?case by (rule exI[of _ "r # rs"])
qed

lemma Min_le_Max_list: "rs \<noteq> [] \<Longrightarrow> Min (set rs) \<le> Max (set (rs :: real list))"
  by (meson List.finite_set Max_ge Min_le set_empty order_trans ex_in_conv)

lemma limits_finite:
  assumes "contributions ax data objs = map Fin rs" "rs \<noteq> []"
  shows "axisLimits ax (calculateAutoScaleLimits data objs) = widened (Min (set rs)) (Max (set rs))"
  using assms by (simp add: axisLimits_calc extent_finite padAxis_widened)

lemma limits_default:
  assumes "contributions ax data objs = [] \<or> \<not> list_all isFinite (contributions ax data objs)"
  shows "axisLimits ax (calculateAutoScaleLimits data objs) = (Fin (- 50), Fin 50)"
  using assms by (simp add: axisLimits_calc padAxis_default)

lemma limits_ordered:
  "js_le (fst (axisLimits ax (calculateAutoScaleLimits data objs)))
     (snd (axisLimits ax (calculateAutoScaleLimits data objs)))"
proof (cases "contributions ax data objs = [] \<or> \<not> list_all isFinite (contributions ax data objs)")
  case True
  then show ?thesis by (simp add: limits_default)
next
  case False
  then obtain rs where rs: "contributions ax data objs = map Fin rs" "rs \<noteq> []"
    using all_finite_map[of "contributions ax data objs"] by auto
  then show ?thesis
    using widened_ordered[OF Min_le_Max_list[OF rs(2)]] by (simp add: limits_finite)
qed

lemma foldl_boundsStep_visible:
  "foldl (boundsStep data) acc (filter (\<lambda>s. visible (base s)) objs) = foldl (boundsStep data) acc objs"
  by (induction objs arbitrary: acc) (auto simp del: boundsStep.simps simp: boundsStep.simps[of data _ _ _ _] split: prod.splits)

lemma calc_visible:
  "calculateAutoScaleLimits data objs =
       calculateAutoScaleLimits data (filter (\<lambda>s. visible (base s)) objs)"
  by (simp only: calculateAutoScaleLimits_def foldl_boundsStep_visible)

text \<open>
  Claim C9, as amended. For every shape list and telemetry snapshot the limits of
  each axis are numbers with the lower not above the upper, and they are those of
  the visible shapes alone. An axis whose contributions are all finite, and which
  has at least one, gets the least and the greatest of them widened on both sides
  by a tenth of their distance, or of \<open>10\<close> when the distance is zero, each operation
  rounded to binary64. An axis with no contribution, or with a contribution that is
  not finite, gets \<open>[-50, 50]\<close>.
\<close>

theorem C9_auto_scale_limits:
  "js_le (fst (axisLimits ax (calculateAutoScaleLimits data objs)))
     (snd (axisLimits ax (calculateAutoScaleLimits data objs)))
   \<and> calculateAutoScaleLimits data objs =
       calculateAutoScaleLimits data (filter (\<lambda>s. visible (base s)) objs)
   \<and> (contributions ax data objs = map Fin rs \<and> rs \<noteq> [] \<longrightarrow>
        axisLimits ax (calculateAutoScaleLimits data objs) = widened (Min (set rs)) (Max (set rs)))
   \<and> (contributions ax data objs = [] \<or> \<not> list_all isFinite (contributions ax data objs) \<longrightarrow>
        axisLimits ax (calculateAutoScaleLimits data objs) = (Fin (- 50), Fin 50))"
  using limits_ordered[of ax data objs] limits_finite[of ax data objs rs]
    limits_default[of ax data objs] calc_visible[of data objs]
  by blast

lemma contributions_sphereS: "contributions AxisX None [sphereS] = map Fin [10]"
  by (simp add: contributions_def sphereS_def constField_def getLastDataFieldValue_def
      getDataFieldValue_def includes_comma_def parseFloat_10)

lemma contributions_none: "contributions AxisX None [] = []"
  by (simp add: contributions_def)

lemma range64_zero: "range64 r r = Fin 10"
  by (simp add: range64_def round64_def)

lemma widened_10: "widened 10 10 = (Fin 9, Fin 11)"
  by (simp add: widened_def range64_zero padding_of_ten sub64_def add64_def js_sub_def round64_numeral)

theorem C9_auto_scale_limits_witness:
  "axisLimits AxisX (calculateAutoScaleLimits None [sphereS]) = (Fin 9, Fin 11)
   \<and> axisLimits AxisX (calculateAutoScaleLimits None []) = (Fin (- 50), Fin 50)"
proof -
  have "axisLimits AxisX (calculateAutoScaleLimits None [sphereS]) = widened (Min (set [10])) (Max (set [10]))"
    using C9_auto_scale_limits[of AxisX None "[sphereS]" "[10]", THEN conjunct2, THEN conjunct2,
        THEN conjunct1] contributions_sphereS
    by simp
  moreover have "axisLimits AxisX (calculateAutoScaleLimits None []) = (Fin (- 50), Fin 50)"
    using C9_auto_scale_limits[of AxisX None "[]" "[]", THEN conjunct2, THEN conjunct2,
        THEN conjunct2] contributions_none
    by simp
  ultimately show ?thesis by (simp add: widened_10)
qed

text \<open>
  The claim as first stated fails twice. The padding of a sphere at
  \<open>x = 100000000000000000\<close> is \<open>1\<close>, which rounding to binary64 absorbs on both sides,
  so the two limits of the axis are equal. And an axis that has finite contributions
  and one that is not finite gets the default: the \<open>x\<close> values \<open>0\<close>, \<open>NaN\<close> and \<open>10\<close> of
  a visible polyline give \<open>[-50, 50]\<close>, not the widened interval \<open>[-1, 11]\<close> of the
  finite ones.
\<close>

lemma contributions_sphereFar: "contributions AxisX None [sphereFar] = [Fin 100000000000000000]"
  by (simp add: contributions_def sphereFar_def constField_def getLastDataFieldValue_def
      getDataFieldValue_def includes_comma_def parseFloat_1e17)

lemma round64_below_1e17: "round64 99999999999999999 = Fin 100000000000000000"
proof -
  have m: "roundTiesToEven (99999999999999999 / 2 powi 4) = 6250000000000000"
    by (simp add: roundTiesToEven_def)
  show ?thesis
    using round64_eval[of 56 99999999999999999 4 6250000000000000] m by (simp add: inf_of_sign_def)
qed

lemma round64_above_1e17: "round64 100000000000000001 = Fin 100000000000000000"
proof -
  have m: "roundTiesToEven (100000000000000001 / 2 powi 4) = 6250000000000000"
    by (simp add: roundTiesToEven_def)
  show ?thesis
    using round64_eval[of 56 100000000000000001 4 6250000000000000] m by (simp add: inf_of_sign_def)
qed

lemma widened_1e17:
  "widened 100000000000000000 100000000000000000 = (Fin 100000000000000000, Fin 100000000000000000)"
  by (simp add: widened_def range64_zero padding_of_ten sub64_def add64_def js_sub_def
      round64_below_1e17 round64_above_1e17)

lemma widened_0_10: "widened 0 10 = (Fin (- 1), Fin 11)"
proof -
  have "range64 0 10 = Fin 10" by (simp add: range64_def round64_numeral)
  moreover have "round64 (- 1) = Fin (- 1)" using round64_int[of "- 1"] by simp
  ultimately show ?thesis
    by (simp add: widened_def padding_of_ten sub64_def add64_def js_sub_def round64_numeral)
qed

lemma gap_values:
  "getDataFieldValue (Some [seriesGap]) (Some \<lparr>sourceType = field, df_value = ''x''\<rparr>) (Fin 0)
     = [Fin 0, NaN, Fin 10]"
  by code_simp

lemma contributions_gap:
  "contributions AxisX (Some [seriesGap]) [polylineP] = [Fin 0, NaN, Fin 10]"
  by (simp add: contributions_def polylineP_def gap_values)

theorem C9_bounds_counterexample:
  "axisLimits AxisX (calculateAutoScaleLimits None [sphereFar])
     = (Fin 100000000000000000, Fin 100000000000000000)
   \<and> contributions AxisX (Some [seriesGap]) [polylineP] = [Fin 0, NaN, Fin 10]
   \<and> axisLimits AxisX (calculateAutoScaleLimits (Some [seriesGap]) [polylineP]) = (Fin (- 50), Fin 50)
   \<and> widened 0 10 = (Fin (- 1), Fin 11)
   \<and> axisLimits AxisX (calculateAutoScaleLimits (Some [seriesGap]) [polylineP]) \<noteq> widened 0 10"
proof -
  have a: "axisLimits AxisX (calculateAutoScaleLimits None [sphereFar])
     = (Fin 100000000000000000, Fin 100000000000000000)"
    using limits_finite[of AxisX None "[sphereFar]" "[100000000000000000]"]
    by (simp add: contributions_sphereFar widened_1e17)
  have b: "axisLimits AxisX (calculateAutoScaleLimits (Some [seriesGap]) [polylineP]) = (Fin (- 50), Fin 50)"
    using limits_default[of AxisX "Some [seriesGap]" "[polylineP]"] by (simp add: contributions_gap)
  show ?thesis by (simp add: a b contributions_gap widened_0_10 del: axisLimits.simps)
qed

section \<open>Properties of scene reconciliation\<close>

lemma removeObject_present:
  assumes "map_of (objectsRef s) k = Some r"
  shows "removeObject s k =
     s\<lparr>sceneChildren := removeAll r (sceneChildren s),
       objectsRef := mapDelete k (objectsRef s),
       journal := journal s @ [Removed r]\<rparr>"
  using assms by (simp add: removeObject_def)

lemma addObjectToScene_sel:
  "objectsRef (addObjectToScene r k s) = mapSet k r (objectsRef s)"
  "sceneChildren (addObjectToScene r k s) = removeAll r (sceneChildren s) @ [r]"
  "journal (addObjectToScene r k s) = journal s"
  "store (addObjectToScene r k s) = store s"
  "nextRef (addObjectToScene r k s) = nextRef s"
  "pendingLoads (addObjectToScene r k s) = pendingLoads s"
  by (simp_all add: addObjectToScene_def)

lemma allocate_sel:
  "fst (allocate ob s) = nextRef s"
  "objectsRef (snd (allocate ob s)) = objectsRef s"
  "sceneChildren (snd (allocate ob s)) = sceneChildren s"
  "journal (snd (allocate ob s)) = journal s @ [Created (nextRef s)]"
  "store (snd (allocate ob s)) = (store s)(nextRef s \<mapsto> ob)"
  "nextRef (snd (allocate ob s)) = Suc (nextRef s)"
  "pendingLoads (snd (allocate ob s)) = pendingLoads s"
  by (simp_all add: allocate_def)

text \<open>Creating a shape whose id is not in the map.\<close>

lemma reconcileShape_create:
  assumes "visible (base shape)" "map_of (objectsRef s) (shape_id (base shape)) = None"
    and "creatable loader shape"
  shows "objectsRef (reconcileShape data loader s shape)
           = mapSet (shape_id (base shape)) (nextRef s) (objectsRef s)
         \<and> sceneChildren (reconcileShape data loader s shape)
           = removeAll (nextRef s) (sceneChildren s) @ [nextRef s]
         \<and> journal (reconcileShape data loader s shape) = journal s @ [Created (nextRef s)]
         \<and> pendingLoads (reconcileShape data loader s shape) = pendingLoads s
         \<and> nextRef (reconcileShape data loader s shape) = Suc (nextRef s)
         \<and> store (reconcileShape data loader s shape) (nextRef s) \<noteq> None
         \<and> (\<forall>r. r \<noteq> nextRef s \<longrightarrow> store (reconcileShape data loader s shape) r = store s r)"
proof (cases shape)
  case (SphereShape b p sp)
  with assms show ?thesis
    by (simp add: reconcileShape_def createSphere_def Let_def allocate_def addObjectToScene_def)
next
  case (AnnotationShape b p a)
  with assms show ?thesis
    by (simp add: reconcileShape_def createAnnotation_def allocate_def addObjectToScene_def)
next
  case (PolylineShape b l)
  with assms show ?thesis
    by (simp add: reconcileShape_def createPolyline_def allocate_def addObjectToScene_def)
next
  case (ModelShape b p m)
  show ?thesis
  proof (cases "urlBlank (url m)")
    case True
    with ModelShape assms show ?thesis
      by (simp add: reconcileShape_def create3DModel_def createDefaultCube_def allocate_def
          addObjectToScene_def)
  next
    case False
    with ModelShape assms obtain sz where "loader (url m) = Loaded sz"
      by (cases "loader (url m)") auto
    with False ModelShape assms show ?thesis
      by (simp add: reconcileShape_def create3DModel_def bumpVersion_def Let_def allocate_def
          addObjectToScene_def)
  qed
qed

text \<open>Updating a shape in place.\<close>

lemma reconcileShape_update:
  assumes "visible (base shape)" "map_of (objectsRef s) (shape_id (base shape)) = Some r"
    and "store s r = Some ob" "updatedInPlace shape ob"
  shows "objectsRef (reconcileShape data loader s shape) = objectsRef s
         \<and> sceneChildren (reconcileShape data loader s shape) = sceneChildren s
         \<and> journal (reconcileShape data loader s shape) = journal s
         \<and> pendingLoads (reconcileShape data loader s shape) = pendingLoads s
         \<and> nextRef (reconcileShape data loader s shape) = nextRef s
         \<and> store (reconcileShape data loader s shape) r \<noteq> None
         \<and> (\<forall>q. q \<noteq> r \<longrightarrow> store (reconcileShape data loader s shape) q = store s q)
         \<and> (\<forall>p. positionFields shape = Some p \<and> typeOf shape \<noteq> annotation \<longrightarrow>
               map_option position (store (reconcileShape data loader s shape) r)
                 = Some (lastPosition data p))"
proof (cases shape)
  case (SphereShape b p sp)
  with assms show ?thesis
    by (simp add: reconcileShape_def managerUpdateObjects_def updateShape_def)
next
  case (AnnotationShape b p a)
  with assms show ?thesis
    by (simp add: reconcileShape_def managerUpdateObjects_def updateShape_def)
next
  case (PolylineShape b l)
  with assms show ?thesis by simp
next
  case (ModelShape b p m)
  with assms show ?thesis
    by (simp add: reconcileShape_def managerUpdateObjects_def updateShape_def)
qed


text \<open>
  Claim C5, as amended. Let the map hold exactly the live objects of \<open>A\<close> and \<open>B\<close>,
  which are also the objects of the scene, with no completion outstanding, and let
  the new shape list be the visible shapes \<open>B\<close> and \<open>C\<close>, where \<open>C\<close> has a new id.
  If \<open>B\<close> is a sphere, an annotation or a model whose URL is the recorded one, and
  \<open>C\<close> is not a model whose load fails, then the pass disposes of and removes the
  object of \<open>A\<close>, keeps the object of \<open>B\<close> (the same reference, updated in place: a
  sphere or model is moved to its newly resolved position) and builds one object
  for \<open>C\<close>: the journal grows by exactly one removal and one creation, and afterwards
  the map holds exactly one object for each of the two ids, the same two objects
  the scene holds.
\<close>

theorem C5_reconcile_step:
  assumes "objectsRef s = [(a, ra), (b, rb)]" "sceneChildren s = [ra, rb]" "a \<noteq> b" "ra \<noteq> rb"
    and "ra < nextRef s" "rb < nextRef s" "store s rb = Some ob" "pendingLoads s = []"
    and "visible (base B)" "shape_id (base B) = b" "updatedInPlace B ob"
    and "visible (base C)" "shape_id (base C) = c" "c \<noteq> a" "c \<noteq> b" "creatable loader C"
  shows "journal (reconcile data loader [B, C] s) = journal s @ [Removed ra, Created (nextRef s)]
         \<and> objectsRef (reconcile data loader [B, C] s) = [(b, rb), (c, nextRef s)]
         \<and> sceneChildren (reconcile data loader [B, C] s) = [rb, nextRef s]
         \<and> distinct (map fst (objectsRef (reconcile data loader [B, C] s)))
         \<and> store (reconcile data loader [B, C] s) rb \<noteq> None
         \<and> store (reconcile data loader [B, C] s) (nextRef s) \<noteq> None
         \<and> pendingLoads (reconcile data loader [B, C] s) = []
         \<and> (\<forall>p. positionFields B = Some p \<and> typeOf B \<noteq> annotation \<longrightarrow>
               map_option position (store (reconcile data loader [B, C] s) rb)
                 = Some (lastPosition data p))"
proof -
  define s1 where "s1 = removeObject s a"
  define s2 where "s2 = reconcileShape data loader s1 B"
  define s3 where "s3 = reconcileShape data loader s2 C"
  have rm: "filter (\<lambda>k. k \<notin> set (map (\<lambda>obj. shape_id (base obj))
              (filter (\<lambda>obj. visible (base obj)) [B, C]))) (map fst (objectsRef s)) = [a]"
    using assms by auto
  have u: "updateObjects data loader [B, C] s = s3"
    unfolding updateObjects_def Let_def rm
    by (simp add: removeObjectsFromScene_def s1_def s2_def s3_def)
  have 1: "objectsRef s1 = [(b, rb)]" "sceneChildren s1 = [rb]"
    "journal s1 = journal s @ [Removed ra]" "store s1 = store s" "nextRef s1 = nextRef s"
    "pendingLoads s1 = []"
    using assms(1-4,8) by (simp_all add: s1_def removeObject_def mapDelete_def)
  have 2: "objectsRef s2 = [(b, rb)]" "sceneChildren s2 = [rb]"
    "journal s2 = journal s @ [Removed ra]" "nextRef s2 = nextRef s" "pendingLoads s2 = []"
    "store s2 rb \<noteq> None"
    "\<forall>p. positionFields B = Some p \<and> typeOf B \<noteq> annotation \<longrightarrow>
       map_option position (store s2 rb) = Some (lastPosition data p)"
    using reconcileShape_update[of B s1 rb ob data loader] assms(7,9,10,11) 1
    by (simp_all add: s2_def)
  have c: "map_of (objectsRef s2) (shape_id (base C)) = None"
    using 2(1) assms(13,15) by simp
  note 3 = reconcileShape_create[OF assms(12) c assms(16), of data, folded s3_def]
  have n: "nextRef s \<noteq> rb" using assms(6) by simp
  have k: "store s3 rb = store s2 rb"
    using 3 2(4) n by simp
  have 4: "objectsRef s3 = [(b, rb), (c, nextRef s)]" "sceneChildren s3 = [rb, nextRef s]"
    "journal s3 = journal s @ [Removed ra, Created (nextRef s)]" "pendingLoads s3 = []"
    "store s3 (nextRef s) \<noteq> None" "store s3 rb \<noteq> None"
    "\<forall>p. positionFields B = Some p \<and> typeOf B \<noteq> annotation \<longrightarrow>
       map_option position (store s3 rb) = Some (lastPosition data p)"
    using 3 2 assms(13,15) n by (simp_all add: k)
  have r: "reconcile data loader [B, C] s = s3\<lparr>pendingLoads := []\<rparr>"
    by (simp add: reconcile_def u 4(4))
  show ?thesis
    using 4 assms(15) by (simp add: r)
qed

lemma first_pass:
  "objectsRef (reconcile None noLoader [sphereNamed ''a'', sphereNamed ''b''] emptyScene) = [(''a'', 0), (''b'', 1)]"
  "sceneChildren (reconcile None noLoader [sphereNamed ''a'', sphereNamed ''b''] emptyScene) = [0, 1]"
  "journal (reconcile None noLoader [sphereNamed ''a'', sphereNamed ''b''] emptyScene) = [Created 0, Created 1]"
  "nextRef (reconcile None noLoader [sphereNamed ''a'', sphereNamed ''b''] emptyScene) = 2"
  "pendingLoads (reconcile None noLoader [sphereNamed ''a'', sphereNamed ''b''] emptyScene) = []"
  "store (reconcile None noLoader [sphereNamed ''a'', sphereNamed ''b''] emptyScene) 1 \<noteq> None"
  by (simp_all add: reconcile_def updateObjects_def reconcileShape_def removeObjectsFromScene_def
      createSphere_def allocate_def addObjectToScene_def emptyScene_def sphereNamed_def Let_def)

theorem C5_reconcile_step_witness:
  "journal (reconcile None noLoader [sphereNamed ''b'', sphereNamed ''c'']
      (reconcile None noLoader [sphereNamed ''a'', sphereNamed ''b''] emptyScene))
     = [Created 0, Created 1, Removed 0, Created 2]
   \<and> objectsRef (reconcile None noLoader [sphereNamed ''b'', sphereNamed ''c'']
      (reconcile None noLoader [sphereNamed ''a'', sphereNamed ''b''] emptyScene))
     = [(''b'', 1), (''c'', 2)]
   \<and> sceneChildren (reconcile None noLoader [sphereNamed ''b'', sphereNamed ''c'']
      (reconcile None noLoader [sphereNamed ''a'', sphereNamed ''b''] emptyScene))
     = [1, 2]"
proof -
  obtain ob where ob:
    "store (reconcile None noLoader [sphereNamed ''a'', sphereNamed ''b''] emptyScene) 1 = Some ob"
    using first_pass(6) by auto
  have v: "visible (base (sphereNamed k))" "shape_id (base (sphereNamed k)) = k"
    "updatedInPlace (sphereNamed k) ob" "creatable noLoader (sphereNamed k)" for k
    by (simp_all add: sphereNamed_def)
  show ?thesis
    using C5_reconcile_step[OF first_pass(1,2) _ _ _ _ ob first_pass(5) v(1,2,3) v(1,2) _ _ v(4),
        of "''c''" None]
    by (simp add: first_pass)
qed

text \<open>
  The claim as first stated fails when \<open>B\<close> is a polyline: its live object is removed
  and a new one is built, so the pass makes two removals and two creations, and
  the id of \<open>B\<close> ends with a new object.
\<close>

lemma first_pass_polyline:
  "objectsRef (reconcile None noLoader [sphereNamed ''a'', polylineNamed ''b''] emptyScene) = [(''a'', 0), (''b'', 1)]"
  "sceneChildren (reconcile None noLoader [sphereNamed ''a'', polylineNamed ''b''] emptyScene) = [0, 1]"
  "journal (reconcile None noLoader [sphereNamed ''a'', polylineNamed ''b''] emptyScene) = [Created 0, Created 1]"
  by (simp_all add: reconcile_def updateObjects_def reconcileShape_def removeObjectsFromScene_def
      createSphere_def createPolyline_def allocate_def addObjectToScene_def emptyScene_def
      sphereNamed_def polylineNamed_def Let_def)

theorem C5_polyline_counterexample:
  "objectsRef (reconcile None noLoader [sphereNamed ''a'', polylineNamed ''b''] emptyScene)
     = [(''a'', 0), (''b'', 1)]
   \<and> journal (reconcile None noLoader [sphereNamed ''a'', polylineNamed ''b''] emptyScene)
     = [Created 0, Created 1]
   \<and> journal (reconcile None noLoader [polylineNamed ''b'', sphereNamed ''c'']
      (reconcile None noLoader [sphereNamed ''a'', polylineNamed ''b''] emptyScene))
     = [Created 0, Created 1, Removed 0, Removed 1, Created 2, Created 3]
   \<and> objectsRef (reconcile None noLoader [polylineNamed ''b'', sphereNamed ''c'']
      (reconcile None noLoader [sphereNamed ''a'', polylineNamed ''b''] emptyScene))
     = [(''b'', 2), (''c'', 3)]"
  by (simp add: reconcile_def updateObjects_def reconcileShape_def removeObjectsFromScene_def
      managerUpdateObjects_def updateShape_def removeObject_def mapDelete_def
      createSphere_def createPolyline_def allocate_def addObjectToScene_def emptyScene_def
      sphereNamed_def polylineNamed_def Let_def)


section \<open>Further properties of the field resolver\<close>

text \<open>
  Numeric resolution and \<open>getFieldValueAsString\<close> never return an empty array, and
  for a telemetry-bound field they return the default alone when no series has a
  first field of the referenced name with a nonzero value count.
\<close>

lemma getFieldValueAsString_nonempty: "getFieldValueAsString str data fld t \<noteq> []"
proof -
  have a: "findFieldByNameAsString str ss fn t \<noteq> []" for ss fn
    by (induction ss) (auto simp: processFieldValuesAsString_def split: option.splits)
  have b: "findFieldBySeriesAndNameAsString str ss sn fn = Some r \<Longrightarrow> r \<noteq> []" for ss sn fn r
    by (induction ss) (auto simp: processFieldValuesAsString_def split: if_splits option.splits)
  have "getFieldFromDataSourceAsString str data f t \<noteq> []" for f
    by (auto simp: getFieldFromDataSourceAsString_def a dest: b split: option.splits prod.splits)
  then show ?thesis
    by (auto simp: getFieldValueAsString_def split_comma_nonempty split: option.splits)
qed

lemma find_hasData_None: "\<not> list_ex (\<lambda>s. P s \<and> hasData s fn) ss \<Longrightarrow> find (\<lambda>s. P s \<and> hasData s fn) ss = None"
  by (induction ss) auto

theorem resolution_never_empty:
  "getDataFieldValue data fld d \<noteq> [] \<and> getFieldValueAsString str data fld t \<noteq> []
   \<and> (sourceType f = field
        \<and> \<not> list_ex (\<lambda>s. hasData s (snd (parseFieldReference (df_value f)))) series \<longrightarrow>
        getDataFieldValue (Some series) (Some f) d = [d]
        \<and> getFieldValueAsString str (Some series) (Some f) t = [t])"
proof (intro conjI impI)
  show "getDataFieldValue data fld d \<noteq> []" by (rule getDataFieldValue_nonempty)
  show "getFieldValueAsString str data fld t \<noteq> []" by (rule getFieldValueAsString_nonempty)
next
  assume h: "sourceType f = field
        \<and> \<not> list_ex (\<lambda>s. hasData s (snd (parseFieldReference (df_value f)))) series"
  obtain so fn where p: "parseFieldReference (df_value f) = (so, fn)"
    by (cases "parseFieldReference (df_value f)") auto
  from h p have n: "\<not> list_ex (\<lambda>s. hasData s fn) series" by simp
  then have 1: "find (\<lambda>s. hasData s fn) series = None"
    using find_hasData_None[of "\<lambda>s. True" fn series] by simp
  from n have 2: "find (\<lambda>s. seriesMatches s sn \<and> hasData s fn) series = None" for sn
    by (intro find_hasData_None) (auto simp: list_ex_iff)
  show "getDataFieldValue (Some series) (Some f) d = [d]"
    using h p 1 2
    by (simp add: getDataFieldValue_def getFieldFromDataSource_def
        findFieldBySeriesAndName_find findFieldByName_find split: option.splits)
  show "getFieldValueAsString str (Some series) (Some f) t = [t]"
    using h p 1 2
    by (simp add: getFieldValueAsString_def getFieldFromDataSourceAsString_def
        findFieldBySeriesAndNameAsString_find findFieldByNameAsString_find split: option.splits)
qed

lemma parseFieldReference_x: "parseFieldReference ''x'' = (None, ''x'')"
  by code_simp

theorem resolution_never_empty_witness:
  "getDataFieldValue (Some [seriesEmpty]) (Some \<lparr>sourceType = field, df_value = ''x''\<rparr>) (Fin 7) = [Fin 7]
   \<and> getFieldValueAsString showValue (Some [seriesEmpty])
        (Some \<lparr>sourceType = field, df_value = ''x''\<rparr>) ''none'' = [''none'']"
  using resolution_never_empty[of None None "Fin 7" showValue "''none''"
      "\<lparr>sourceType = field, df_value = ''x''\<rparr>" "[seriesEmpty]"]
  by (simp add: parseFieldReference_x hasData_def fieldData_def findField_def seriesEmpty_def)

end
